theory Spec2Isabelle
  imports Complex_Main
begin

section \<open>Data model (types.ts, GameCanvas.tsx)\<close>

text \<open>
  The simulation of \<^verbatim>\<open>src/components/GameCanvas.tsx\<close> (the variant with weapons,
  enemy subtypes and the boss). A JavaScript \<^verbatim>\<open>number\<close> that holds a coordinate, a
  velocity or an extent is a \<^typ>\<open>real\<close> (no rounding is modelled); a number that only
  ever holds an integer (hp, score, frame counter, timers, penetration, boss phase) is an
  \<^typ>\<open>int\<close>. An optional field of \<^verbatim>\<open>Entity\<close> is an \<open>option\<close>, \<open>None\<close> for
  \<^verbatim>\<open>undefined\<close>. The \<^verbatim>\<open>id\<close> strings keep their fixed prefix only: the time stamp
  and random suffix are never read by the simulation.
\<close>

datatype EntityType = Player | Enemy | Bullet | Particle | Platform | Powerup | BossProjectile

datatype WeaponType = Rifle | Spread | Laser | Flame

datatype EnemyType = Runner | Drone | Jumper | Boss

datatype GameStatus = MENU | BRIEFING | PLAYING | GAME_OVER

record Vector2 =
  x :: real
  y :: real

record Size =
  width :: real
  height :: real

record Entity =
  id_e :: string
  type :: EntityType
  subtype :: "EnemyType option"
  weaponType :: "WeaponType option"
  pos :: Vector2
  vel :: Vector2
  size_e :: Size
  color :: string
  hp :: int
  maxHp :: int
  markedForDeletion :: bool
  direction :: int
  isGrounded :: "bool option"
  ttl :: "int option"
  attackTimer :: "int option"
  bossPhase :: "int option"
  penetration :: "int option"

record Input =
  left :: bool
  right :: bool
  up :: bool
  down :: bool
  jump :: bool
  fire :: bool

text \<open>
  The mutable references of the component (\<^verbatim>\<open>frameCountRef\<close>, \<^verbatim>\<open>bossActiveRef\<close>,
  \<^verbatim>\<open>playerRef\<close>, \<^verbatim>\<open>entitiesRef\<close>, \<^verbatim>\<open>platformsRef\<close>, \<^verbatim>\<open>scoreRef\<close>,
  \<^verbatim>\<open>inputRef\<close>, the canvas extent) as one state record. \<open>randomCalls\<close> counts the calls
  of \<^verbatim>\<open>Math.random\<close> made so far: the k-th call returns \<open>rnd k\<close> for a stream
  \<open>rnd\<close> that every function below takes as a parameter.
\<close>

record Game =
  frameCount :: int
  bossActive :: bool
  player :: Entity
  entities :: "Entity list"
  platforms :: "Entity list"
  score :: int
  input :: Input
  canvas :: Size
  randomCalls :: nat

definition GRAVITY :: real where
  "GRAVITY = 0.6"

definition FRICTION :: real where
  "FRICTION = 0.8"

definition PLAYER_SPEED :: real where
  "PLAYER_SPEED = 6"

definition JUMP_FORCE :: real where
  "JUMP_FORCE = - 14"

definition BOSS_SPAWN_SCORE :: int where
  "BOSS_SPAWN_SCORE = 1500"

record WeaponStats =
  rate :: int
  speed :: real
  wcolor :: string
  wsize :: Size

fun WEAPONS :: "WeaponType \<Rightarrow> WeaponStats" where
  "WEAPONS Rifle = \<lparr>rate = 10, speed = 12, wcolor = ''#facc15'', wsize = \<lparr>width = 8, height = 4\<rparr>\<rparr>"
| "WEAPONS Spread = \<lparr>rate = 20, speed = 10, wcolor = ''#ef4444'', wsize = \<lparr>width = 10, height = 10\<rparr>\<rparr>"
| "WEAPONS Laser = \<lparr>rate = 25, speed = 20, wcolor = ''#3b82f6'', wsize = \<lparr>width = 30, height = 4\<rparr>\<rparr>"
| "WEAPONS Flame = \<lparr>rate = 4, speed = 7, wcolor = ''#f97316'', wsize = \<lparr>width = 6, height = 6\<rparr>\<rparr>"

section \<open>Player physics and platforms (update, lines 206-239)\<close>

text \<open>Lines 207-218: input-driven horizontal velocity, gravity, one position step.\<close>

definition integratePlayer :: "Input \<Rightarrow> Entity \<Rightarrow> Entity" where
  "integratePlayer inp p =
     (let p1 = (if left inp then p\<lparr>vel := (vel p)\<lparr>x := - PLAYER_SPEED\<rparr>, direction := - 1\<rparr>
                else if right inp then p\<lparr>vel := (vel p)\<lparr>x := PLAYER_SPEED\<rparr>, direction := 1\<rparr>
                else p\<lparr>vel := (vel p)\<lparr>x := x (vel p) * FRICTION\<rparr>\<rparr>);
          p2 = p1\<lparr>vel := (vel p1)\<lparr>y := y (vel p1) + GRAVITY\<rparr>\<rparr>;
          p3 = p2\<lparr>pos := (pos p2)\<lparr>x := x (pos p2) + x (vel p2)\<rparr>\<rparr>;
          p4 = p3\<lparr>pos := (pos p3)\<lparr>y := y (pos p3) + y (vel p3)\<rparr>\<rparr>
      in p4)"

text \<open>Lines 221-223: horizontal clamp and death by falling.\<close>

definition boundsPlayer :: "Size \<Rightarrow> Entity \<Rightarrow> Entity" where
  "boundsPlayer cv p =
     (let p1 = (if x (pos p) < 0 then p\<lparr>pos := (pos p)\<lparr>x := 0\<rparr>\<rparr> else p);
          p2 = (if x (pos p1) + width (size_e p1) > width cv
                then p1\<lparr>pos := (pos p1)\<lparr>x := width cv - width (size_e p1)\<rparr>\<rparr> else p1);
          p3 = (if y (pos p2) > height cv then p2\<lparr>hp := 0\<rparr> else p2)
      in p3)"

text \<open>
  The landing test of lines 228-234 and 389-395 (the same five conjuncts for the player and
  for a ground-bound enemy) and the three assignments made when it holds.
\<close>

definition landing :: "Entity \<Rightarrow> Entity \<Rightarrow> bool" where
  "landing e platform \<longleftrightarrow>
     x (pos e) < x (pos platform) + width (size_e platform) \<and>
     x (pos e) + width (size_e e) > x (pos platform) \<and>
     y (pos e) + height (size_e e) > y (pos platform) \<and>
     y (pos e) + height (size_e e) < y (pos platform) + height (size_e platform) + 20 \<and>
     y (vel e) \<ge> 0"

definition landOn :: "Entity \<Rightarrow> Entity \<Rightarrow> Entity" where
  "landOn platform e =
     (if landing e platform
      then e\<lparr>isGrounded := Some True,
             vel := (vel e)\<lparr>y := 0\<rparr>,
             pos := (pos e)\<lparr>y := y (pos platform) - height (size_e e)\<rparr>\<rparr>
      else e)"

text \<open>\<^verbatim>\<open>platformsRef.current.forEach\<close>: every platform is tested in order, each against
  the entity as the earlier ones left it.\<close>

definition resolvePlatforms :: "Entity list \<Rightarrow> Entity \<Rightarrow> Entity" where
  "resolvePlatforms ps e = fold landOn ps e"

definition playerPhysics :: "Game \<Rightarrow> Game" where
  "playerPhysics g =
     (let p1 = boundsPlayer (canvas g) (integratePlayer (input g) (player g));
          p2 = p1\<lparr>isGrounded := Some False\<rparr>
      in g\<lparr>player := resolvePlatforms (platforms g) p2\<rparr>)"

section \<open>Shooting (lines 242-276)\<close>

definition spawnBullet :: "Entity \<Rightarrow> WeaponStats \<Rightarrow> real \<Rightarrow> real \<Rightarrow> int option \<Rightarrow> Entity" where
  "spawnBullet p wStats vx vy t =
     \<lparr>id_e = ''b-'', type = Bullet, subtype = None, weaponType = None,
      pos = \<lparr>x = x (pos p) + (if direction p = 1 then width (size_e p) else 0),
             y = y (pos p) + 16\<rparr>,
      vel = \<lparr>x = vx, y = vy\<rparr>,
      size_e = wsize wStats, color = wcolor wStats,
      hp = 1, maxHp = 1, markedForDeletion = False, direction = direction p,
      isGrounded = None, ttl = t, attackTimer = None, bossPhase = None,
      penetration = Some (if weaponType p = Some Laser then 5 else 1)\<rparr>"

text \<open>Each bullet's id draws one random number; the flame's vertical speed draws one
  before that (it is an argument of the call).\<close>

definition shoot :: "(nat \<Rightarrow> real) \<Rightarrow> Game \<Rightarrow> Game" where
  "shoot rnd g =
     (if fire (input g) then
        (let p = player g;
             wStats = WEAPONS (case weaponType p of None \<Rightarrow> Rifle | Some w \<Rightarrow> w);
             d = real_of_int (direction p)
         in if frameCount g mod rate wStats = 0 then
              (if weaponType p = Some Spread then
                 g\<lparr>entities := entities g @
                      [spawnBullet p wStats (d * speed wStats) 0 None,
                       spawnBullet p wStats (d * speed wStats * 0.9) (- 2) None,
                       spawnBullet p wStats (d * speed wStats * 0.9) 2 None],
                   randomCalls := randomCalls g + 3\<rparr>
               else if weaponType p = Some Flame then
                 g\<lparr>entities := entities g @
                      [spawnBullet p wStats (d * speed wStats)
                         ((rnd (randomCalls g) - 0.5) * 2) (Some 30)],
                   randomCalls := randomCalls g + 2\<rparr>
               else
                 g\<lparr>entities := entities g @ [spawnBullet p wStats (d * speed wStats) 0 None],
                   randomCalls := randomCalls g + 1\<rparr>)
            else g)
      else g)"

section \<open>Spawner (spawnPowerup, spawnEnemy, spawnBoss, lines 279-284)\<close>

definition spawnPowerup :: "(nat \<Rightarrow> real) \<Rightarrow> Game \<Rightarrow> Game" where
  "spawnPowerup rnd g =
     (let types = [Spread, Laser, Flame];
          k = \<lfloor>rnd (randomCalls g) * real (length types)\<rfloor>;
          wt = (if 0 \<le> k \<and> k < int (length types) then Some (types ! nat k) else None)
      in g\<lparr>entities := entities g @
             [\<lparr>id_e = ''pw-'', type = Powerup, subtype = None, weaponType = wt,
               pos = \<lparr>x = width (canvas g), y = 200\<rparr>, vel = \<lparr>x = - 3, y = 0\<rparr>,
               size_e = \<lparr>width = 24, height = 24\<rparr>, color = ''#fff'',
               hp = 1, maxHp = 1, markedForDeletion = False, direction = 1,
               isGrounded = None, ttl = None, attackTimer = None, bossPhase = None,
               penetration = None\<rparr>],
           randomCalls := randomCalls g + 1\<rparr>)"

definition spawnEnemy :: "(nat \<Rightarrow> real) \<Rightarrow> Game \<Rightarrow> Game" where
  "spawnEnemy rnd g =
     (if bossActive g then g
      else
        (let rand = rnd (randomCalls g);
             isDrone = (rand > 0.7);
             ty = (if isDrone then Drone else if rand > 0.4 then Jumper else Runner);
             yPos = (if isDrone then 50 + rnd (randomCalls g + 1) * 100
                     else height (canvas g) - 80);
             col = (if isDrone then ''#a855f7'' else if rand > 0.4 then ''#f97316''
                    else ''#22c55e'')
         in g\<lparr>entities := entities g @
                [\<lparr>id_e = ''enemy-'', type = Enemy, subtype = Some ty, weaponType = None,
                  pos = \<lparr>x = width (canvas g), y = yPos\<rparr>, vel = \<lparr>x = - 2, y = 0\<rparr>,
                  size_e = \<lparr>width = 32, height = 32\<rparr>, color = col,
                  hp = (if ty = Drone then 1 else 3), maxHp = 3,
                  markedForDeletion = False, direction = - 1,
                  isGrounded = Some False, ttl = None, attackTimer = Some 0,
                  bossPhase = None, penetration = None\<rparr>],
              randomCalls := randomCalls g + (if isDrone then 2 else 1)\<rparr>))"

definition spawnBoss :: "Game \<Rightarrow> Game" where
  "spawnBoss g =
     g\<lparr>bossActive := True,
       entities := entities g @
         [\<lparr>id_e = ''boss'', type = Enemy, subtype = Some Boss, weaponType = None,
           pos = \<lparr>x = width (canvas g) + 100, y = height (canvas g) - 300\<rparr>,
           vel = \<lparr>x = - 1, y = 0\<rparr>,
           size_e = \<lparr>width = 120, height = 200\<rparr>, color = ''#ef4444'',
           hp = 150, maxHp = 150, markedForDeletion = False, direction = - 1,
           isGrounded = None, ttl = None, attackTimer = Some 0, bossPhase = Some 0,
           penetration = None\<rparr>]\<rparr>"

text \<open>The condition of line 279, read on the state the spawner receives.\<close>

definition bossTrigger :: "Game \<Rightarrow> bool" where
  "bossTrigger g \<longleftrightarrow>
     \<not> bossActive g \<and> score g > BOSS_SPAWN_SCORE \<and>
     length (filter (\<lambda>e. subtype e = Some Boss) (entities g)) = 0"

definition spawning :: "(nat \<Rightarrow> real) \<Rightarrow> Game \<Rightarrow> Game" where
  "spawning rnd g =
     (let g1 = (if bossTrigger g then spawnBoss g else g);
          g2 = (if frameCount g1 mod 120 = 0 then spawnEnemy rnd g1 else g1);
          g3 = (if frameCount g2 mod 900 = 0 \<and> \<not> bossActive g2 then spawnPowerup rnd g2 else g2)
      in g3)"

section \<open>Entity update loop (lines 287-425)\<close>

text \<open>The statements \<^verbatim>\<open>e.pos.x += e.vel.x\<close>, \<^verbatim>\<open>e.pos.y += e.vel.y\<close> and
  \<^verbatim>\<open>e.markedForDeletion = true\<close>, which the loop body repeats in its branches.\<close>

definition addVelX :: "Entity \<Rightarrow> Entity" where
  "addVelX e = e\<lparr>pos := (pos e)\<lparr>x := x (pos e) + x (vel e)\<rparr>\<rparr>"

definition addVelY :: "Entity \<Rightarrow> Entity" where
  "addVelY e = e\<lparr>pos := (pos e)\<lparr>y := y (pos e) + y (vel e)\<rparr>\<rparr>"

definition markDeleted :: "Entity \<Rightarrow> Entity" where
  "markDeleted e = e\<lparr>markedForDeletion := True\<rparr>"

text \<open>Lines 293-295.\<close>

definition applyGravity :: "Entity \<Rightarrow> Entity" where
  "applyGravity e =
     (if type e \<noteq> Bullet \<and> type e \<noteq> Particle \<and> type e \<noteq> Powerup \<and>
         subtype e \<noteq> Some Drone \<and> subtype e \<noteq> Some Boss \<and> type e \<noteq> BossProjectile
      then e\<lparr>vel := (vel e)\<lparr>y := y (vel e) + GRAVITY\<rparr>\<rparr>
      else e)"

text \<open>Lines 298-302.\<close>

definition updatePowerup :: "int \<Rightarrow> Entity \<Rightarrow> Entity" where
  "updatePowerup fc e =
     (let e1 = addVelX e;
          e2 = e1\<lparr>pos := (pos e1)\<lparr>y := 200 + sin (real_of_int fc * 0.05) * 50\<rparr>\<rparr>
      in if x (pos e2) < - 50 then markDeleted e2 else e2)"

text \<open>\<^verbatim>\<open>Math.atan2(b, a)\<close>, the angle of the point \<open>(a, b)\<close> (signed zeros apart).\<close>

definition atan2 :: "real \<Rightarrow> real \<Rightarrow> real" where
  "atan2 b a =
     (if a > 0 then arctan (b / a)
      else if a < 0 then (if b \<ge> 0 then arctan (b / a) + pi else arctan (b / a) - pi)
      else if b > 0 then pi / 2 else if b < 0 then - (pi / 2) else 0)"

definition bossAimedShot :: "Entity \<Rightarrow> Entity \<Rightarrow> Entity" where
  "bossAimedShot p e =
     (let angle = atan2 (y (pos p) - y (pos e)) (x (pos p) - x (pos e));
          sp = (if bossPhase e = Some 2 then 8 else 5)
      in \<lparr>id_e = ''bp-'', type = BossProjectile, subtype = None, weaponType = None,
          pos = \<lparr>x = x (pos e), y = y (pos e) + height (size_e e) / 2\<rparr>,
          vel = \<lparr>x = cos angle * sp, y = sin angle * sp\<rparr>,
          size_e = \<lparr>width = 12, height = 12\<rparr>,
          color = (if bossPhase e = Some 2 then ''#ff0000'' else ''#ffa500''),
          hp = 1, maxHp = 1, markedForDeletion = False, direction = - 1,
          isGrounded = None, ttl = None, attackTimer = None, bossPhase = None,
          penetration = None\<rparr>)"

definition bossSpreadShot :: "Entity \<Rightarrow> Entity" where
  "bossSpreadShot e =
     \<lparr>id_e = ''bp-spread-'', type = BossProjectile, subtype = None, weaponType = None,
      pos = \<lparr>x = x (pos e), y = y (pos e) + 20\<rparr>, vel = \<lparr>x = - 8, y = 0\<rparr>,
      size_e = \<lparr>width = 16, height = 16\<rparr>, color = ''#ff0000'',
      hp = 1, maxHp = 1, markedForDeletion = False, direction = - 1,
      isGrounded = None, ttl = None, attackTimer = None, bossPhase = None,
      penetration = None\<rparr>"

text \<open>Lines 304-349: the boss. The result is the boss and the projectiles it pushed.\<close>

definition updateBoss :: "Size \<Rightarrow> int \<Rightarrow> Entity \<Rightarrow> Entity \<Rightarrow> Entity \<times> Entity list" where
  "updateBoss cv fc p e =
     (if bossPhase e = Some 0 then
        (let e1 = e\<lparr>pos := (pos e)\<lparr>x := max (width cv - width (size_e e) - 50)
                                            (x (pos e) + x (vel e))\<rparr>\<rparr>;
             e2 = (if x (pos e1) \<le> width cv - width (size_e e1) - 50
                   then e1\<lparr>bossPhase := Some 1\<rparr> else e1)
         in (e2, []))
      else
        (let e1 = e\<lparr>pos := (pos e)\<lparr>y := (height cv - 300) + sin (real_of_int fc * 0.02) * 50\<rparr>\<rparr>;
             e2 = (if real_of_int (hp e1) < real_of_int (maxHp e1) / 2 \<and> bossPhase e1 = Some 1
                   then e1\<lparr>bossPhase := Some 2\<rparr> else e1);
             t = (case attackTimer e2 of None \<Rightarrow> 0 | Some t0 \<Rightarrow> t0) + 1;
             e3 = e2\<lparr>attackTimer := Some t\<rparr>;
             attackRate = (if bossPhase e3 = Some 2 then 40 else 80)
         in if t mod attackRate = 0
            then (e3, bossAimedShot p e3 # (if bossPhase e3 = Some 2 then [bossSpreadShot e3] else []))
            else (e3, [])))"

text \<open>Lines 350-365: the drone; the random number is drawn only when the drone is within
  50 of the player's x.\<close>

definition droneBomb :: "Entity \<Rightarrow> Entity" where
  "droneBomb e =
     \<lparr>id_e = ''bomb-'', type = BossProjectile, subtype = None, weaponType = None,
      pos = \<lparr>x = x (pos e) + 16, y = y (pos e) + 32\<rparr>, vel = \<lparr>x = 0, y = 5\<rparr>,
      size_e = \<lparr>width = 8, height = 8\<rparr>, color = ''#fff'',
      hp = 1, maxHp = 1, markedForDeletion = False, direction = 1,
      isGrounded = None, ttl = None, attackTimer = None, bossPhase = None,
      penetration = None\<rparr>"

definition updateDrone ::
  "(nat \<Rightarrow> real) \<Rightarrow> int \<Rightarrow> Entity \<Rightarrow> Entity \<Rightarrow> nat \<Rightarrow> Entity \<times> Entity list \<times> nat" where
  "updateDrone rnd fc p e rc =
     (let e1 = addVelX e;
          e2 = e1\<lparr>pos := (pos e1)\<lparr>y := 100 + sin (real_of_int fc * 0.05) * 50\<rparr>\<rparr>
      in if \<bar>x (pos e2) - x (pos p)\<bar> < 50
         then (if rnd rc < 0.05 then (e2, [droneBomb e2], rc + 1) else (e2, [], rc + 1))
         else (e2, [], rc))"

text \<open>Lines 366-374: the jumper; the random number is drawn only when it is grounded.\<close>

definition updateJumper ::
  "(nat \<Rightarrow> real) \<Rightarrow> Entity \<Rightarrow> Entity \<Rightarrow> nat \<Rightarrow> Entity \<times> Entity list \<times> nat" where
  "updateJumper rnd p e rc =
     (let e1 = addVelX e
      in if isGrounded e1 = Some True
         then (if rnd rc < 0.02
               then (let e2 = e1\<lparr>vel := (vel e1)\<lparr>y := - 12\<rparr>\<rparr>;
                         e3 = e2\<lparr>vel := (vel e2)\<lparr>x := (if x (pos p) - x (pos e2) > 0 then 4 else - 4)\<rparr>\<rparr>
                     in (e3\<lparr>isGrounded := Some False\<rparr>, [], rc + 1))
               else (e1, [], rc + 1))
         else (e1, [], rc))"

text \<open>Lines 304-384: the subtype's own movement, then the common "Apply Position" step
  for every enemy that is neither boss nor drone.\<close>

definition moveEnemy ::
  "(nat \<Rightarrow> real) \<Rightarrow> Size \<Rightarrow> int \<Rightarrow> Entity \<Rightarrow> Entity \<Rightarrow> nat \<Rightarrow> Entity \<times> Entity list \<times> nat" where
  "moveEnemy rnd cv fc p e rc =
     (let (e1, new, rc1) =
            (if subtype e = Some Boss then (let (b, shots) = updateBoss cv fc p e in (b, shots, rc))
             else if subtype e = Some Drone then updateDrone rnd fc p e rc
             else if subtype e = Some Jumper then updateJumper rnd p e rc
             else (addVelX e, [], rc));
          e2 = (if subtype e1 \<noteq> Some Boss \<and> subtype e1 \<noteq> Some Drone
                then addVelY (addVelX e1) else e1)
      in (e2, new, rc1))"

text \<open>Lines 386-405: platforms for ground-bound enemies, then the off-screen flags.\<close>

definition settleEnemy :: "Size \<Rightarrow> Entity list \<Rightarrow> Entity \<Rightarrow> Entity" where
  "settleEnemy cv ps e =
     (let e1 = (if subtype e \<noteq> Some Boss \<and> subtype e \<noteq> Some Drone
                then resolvePlatforms ps e else e);
          e2 = (if y (pos e1) > height cv + 100 then markDeleted e1 else e1);
          e3 = (if subtype e2 \<noteq> Some Boss \<and> x (pos e2) < - 100 then markDeleted e2 else e2)
      in e3)"

definition updateEnemy ::
  "(nat \<Rightarrow> real) \<Rightarrow> Size \<Rightarrow> int \<Rightarrow> Entity list \<Rightarrow> Entity \<Rightarrow> Entity \<Rightarrow> nat
     \<Rightarrow> Entity \<times> Entity list \<times> nat" where
  "updateEnemy rnd cv fc ps p e rc =
     (let (e1, new, rc1) = moveEnemy rnd cv fc p e rc in (settleEnemy cv ps e1, new, rc1))"

text \<open>Lines 407-416 (bullets and enemy projectiles) and 417-424 (particles). \<^verbatim>\<open>if (e.ttl)\<close>
  holds for a defined, non-zero ttl.\<close>

definition updateProjectile :: "Size \<Rightarrow> Entity \<Rightarrow> Entity" where
  "updateProjectile cv e =
     (let e1 = addVelY (addVelX e);
          e2 = (case ttl e1 of
                  None \<Rightarrow> e1
                | Some t \<Rightarrow>
                    if t \<noteq> 0 then
                      (let e1a = e1\<lparr>ttl := Some (t - 1)\<rparr>;
                           e1b = e1a\<lparr>vel := (vel e1a)\<lparr>y := y (vel e1a) - 0.1\<rparr>\<rparr>
                       in if t - 1 \<le> 0 then markDeleted e1b else e1b)
                    else e1)
      in if x (pos e2) < - 50 \<or> x (pos e2) > width cv + 50 then markDeleted e2 else e2)"

definition updateParticle :: "Entity \<Rightarrow> Entity" where
  "updateParticle e =
     (let e1 = addVelY (addVelX e)
      in case ttl e1 of
           None \<Rightarrow> e1
         | Some t \<Rightarrow>
             if t \<noteq> 0 then
               (let e1a = e1\<lparr>ttl := Some (t - 1)\<rparr>
                in if t - 1 \<le> 0 then markDeleted e1a else e1a)
             else e1)"

text \<open>The callback of line 289 on one entity: the entity as it leaves the callback, the
  entities the callback pushed, and the count of random numbers drawn.\<close>

definition updateEntity ::
  "(nat \<Rightarrow> real) \<Rightarrow> Size \<Rightarrow> int \<Rightarrow> Entity list \<Rightarrow> Entity \<Rightarrow> Entity \<Rightarrow> nat
     \<Rightarrow> Entity \<times> Entity list \<times> nat" where
  "updateEntity rnd cv fc ps p e rc =
     (if markedForDeletion e then (e, [], rc)
      else
        (let e1 = applyGravity e
         in if type e1 = Powerup then (updatePowerup fc e1, [], rc)
            else if type e1 = Enemy then updateEnemy rnd cv fc ps p e1 rc
            else if type e1 = Bullet \<or> type e1 = BossProjectile then (updateProjectile cv e1, [], rc)
            else if type e1 = Particle then (updateParticle e1, [], rc)
            else (e1, [], rc)))"

text \<open>
  \<^verbatim>\<open>entitiesRef.current.forEach\<close> visits the elements the array holds when the loop
  starts; what a callback pushes goes behind them and is not visited in this loop. A
  callback writes to its own element only and reads the player, so the loop is a left-to-right
  pass that collects the pushed entities in order.
\<close>

fun updateEntities ::
  "(nat \<Rightarrow> real) \<Rightarrow> Size \<Rightarrow> int \<Rightarrow> Entity list \<Rightarrow> Entity \<Rightarrow> Entity list \<Rightarrow> nat
     \<Rightarrow> Entity list \<times> Entity list \<times> nat" where
  "updateEntities rnd cv fc ps p [] rc = ([], [], rc)"
| "updateEntities rnd cv fc ps p (e # es) rc =
     (let (e', new, rc1) = updateEntity rnd cv fc ps p e rc;
          (es', news, rc2) = updateEntities rnd cv fc ps p es rc1
      in (e' # es', new @ news, rc2))"

definition entityUpdateLoop :: "(nat \<Rightarrow> real) \<Rightarrow> Game \<Rightarrow> Game" where
  "entityUpdateLoop rnd g =
     (let (es, new, rc) =
            updateEntities rnd (canvas g) (frameCount g) (platforms g) (player g)
              (entities g) (randomCalls g)
      in g\<lparr>entities := es @ new, randomCalls := rc\<rparr>)"

section \<open>Collisions (lines 427-490, isColliding, spawnParticle)\<close>

definition isColliding :: "Entity \<Rightarrow> Entity \<Rightarrow> bool" where
  "isColliding r1 r2 \<longleftrightarrow>
     x (pos r1) < x (pos r2) + width (size_e r2) \<and>
     x (pos r1) + width (size_e r1) > x (pos r2) \<and>
     y (pos r1) < y (pos r2) + height (size_e r2) \<and>
     y (pos r1) + height (size_e r1) > y (pos r2)"

text \<open>\<^verbatim>\<open>spawnParticle\<close> draws three random numbers: one for the id, two for the velocity.\<close>

definition spawnParticle :: "(nat \<Rightarrow> real) \<Rightarrow> real \<Rightarrow> real \<Rightarrow> string \<Rightarrow> Game \<Rightarrow> Game" where
  "spawnParticle rnd px py col g =
     (let rc = randomCalls g
      in g\<lparr>entities := entities g @
             [\<lparr>id_e = ''p-'', type = Particle, subtype = None, weaponType = None,
               pos = \<lparr>x = px, y = py\<rparr>,
               vel = \<lparr>x = (rnd (rc + 1) - 0.5) * 6, y = (rnd (rc + 2) - 0.5) * 6\<rparr>,
               size_e = \<lparr>width = 4, height = 4\<rparr>, color = col,
               hp = 1, maxHp = 1, markedForDeletion = False, direction = 1,
               isGrounded = None, ttl = Some 20, attackTimer = None, bossPhase = None,
               penetration = None\<rparr>],
           randomCalls := rc + 3\<rparr>)"

text \<open>A write to the object stored at index \<open>i\<close> of the entity array.\<close>

definition modifyEntity :: "nat \<Rightarrow> (Entity \<Rightarrow> Entity) \<Rightarrow> Game \<Rightarrow> Game" where
  "modifyEntity i f g = g\<lparr>entities := (entities g)[i := f (entities g ! i)]\<rparr>"

text \<open>Lines 454-458: the bullet's own bookkeeping on one hit.\<close>

definition consumePenetration :: "Entity \<Rightarrow> Entity" where
  "consumePenetration b =
     (case penetration b of
        None \<Rightarrow> markDeleted b
      | Some n \<Rightarrow> if n \<noteq> 0 \<and> n > 1 then b\<lparr>penetration := Some (n - 1)\<rparr> else markDeleted b)"

text \<open>Line 467: one particle of the boss explosion; its position draws two random numbers
  before the call.\<close>

definition bossDeathParticle :: "(nat \<Rightarrow> real) \<Rightarrow> Entity \<Rightarrow> Game \<Rightarrow> Game" where
  "bossDeathParticle rnd target g =
     (let rc = randomCalls g;
          px = x (pos target) + rnd rc * width (size_e target);
          py = y (pos target) + rnd (rc + 1) * height (size_e target)
      in spawnParticle rnd px py ''#ef4444'' (g\<lparr>randomCalls := rc + 2\<rparr>))"

text \<open>Lines 444-475: the inner callback for the bullet at index \<open>i\<close> and the target at
  index \<open>j\<close>. Both are read from the array as it is now, so that a flag or a
  penetration count written earlier in the same tick is seen.\<close>

definition bulletVsTarget :: "(nat \<Rightarrow> real) \<Rightarrow> nat \<Rightarrow> nat \<Rightarrow> Game \<Rightarrow> Game" where
  "bulletVsTarget rnd i j g =
     (let target = entities g ! j
      in if type target = Enemy \<and> \<not> markedForDeletion target \<and>
            isColliding (entities g ! i) target
         then
           (let g1 = modifyEntity j (\<lambda>t. t\<lparr>hp := hp t - 1\<rparr>) g;
                g2 = modifyEntity i consumePenetration g1;
                entity = entities g2 ! i;
                target2 = entities g2 ! j;
                g3 = spawnParticle rnd (x (pos entity)) (y (pos entity)) (color target2) g2
            in if hp target2 \<le> 0 then
                 (if subtype target2 = Some Boss then
                    (let g4 = g3\<lparr>score := score g3 + 5000\<rparr>;
                         g5 = g4\<lparr>bossActive := False\<rparr>;
                         g6 = (bossDeathParticle rnd target2 ^^ 50) g5
                     in modifyEntity j markDeleted g6)
                  else
                    (let g4 = g3\<lparr>score := score g3 + 100\<rparr>
                     in modifyEntity j markDeleted g4))
               else g3)
         else g)"

text \<open>Lines 431-489: the outer callback for the entity at index \<open>i\<close>.\<close>

definition playerVsPowerup :: "(nat \<Rightarrow> real) \<Rightarrow> nat \<Rightarrow> Game \<Rightarrow> Game" where
  "playerVsPowerup rnd i g =
     (let entity = entities g ! i
      in if isColliding (player g) entity then
           (let g1 = g\<lparr>player := (player g)\<lparr>weaponType := weaponType entity\<rparr>\<rparr>;
                g2 = g1\<lparr>score := score g1 + 500\<rparr>;
                g3 = modifyEntity i markDeleted g2
            in ((\<lambda>h. spawnParticle rnd (x (pos (player h))) (y (pos (player h))) ''#fff'' h) ^^ 10) g3)
         else g)"

definition threatVsPlayer :: "(nat \<Rightarrow> real) \<Rightarrow> nat \<Rightarrow> Game \<Rightarrow> Game" where
  "threatVsPlayer rnd i g =
     (let entity = entities g ! i
      in if isColliding (player g) entity then
           (let g1 = g\<lparr>player := (player g)\<lparr>hp := hp (player g) - 10\<rparr>\<rparr>;
                g2 = (if type entity = BossProjectile then modifyEntity i markDeleted g1 else g1);
                p2 = player g2;
                p3 = p2\<lparr>vel := (vel p2)\<lparr>x := (if x (pos entity) > x (pos p2) then - 10 else 10)\<rparr>\<rparr>;
                p4 = p3\<lparr>vel := (vel p3)\<lparr>y := - 5\<rparr>\<rparr>;
                g3 = g2\<lparr>player := p4\<rparr>
            in spawnParticle rnd (x (pos p4)) (y (pos p4)) ''#ef4444'' g3)
         else g)"

definition collideEntity :: "(nat \<Rightarrow> real) \<Rightarrow> nat \<Rightarrow> Game \<Rightarrow> Game" where
  "collideEntity rnd i g =
     (let entity = entities g ! i
      in if markedForDeletion entity then g
         else if type entity = Powerup then playerVsPowerup rnd i g
         else if type entity = Bullet
           then fold (bulletVsTarget rnd i) [0..<length (entities g)] g
         else if type entity = Enemy \<or> type entity = BossProjectile then threatVsPlayer rnd i g
         else g)"

text \<open>Both \<^verbatim>\<open>forEach\<close> loops run over the indices the array has when the loop starts;
  particles pushed meanwhile lie behind them.\<close>

definition collisions :: "(nat \<Rightarrow> real) \<Rightarrow> Game \<Rightarrow> Game" where
  "collisions rnd g = fold (collideEntity rnd) [0..<length (entities g)] g"

section \<open>The tick (update, lines 196-506)\<close>

definition cleanup :: "Game \<Rightarrow> Game" where
  "cleanup g = g\<lparr>entities := filter (\<lambda>e. \<not> markedForDeletion e) (entities g)\<rparr>"

text \<open>Everything the tick does before the purge of line 493. The HUD snapshot of lines
  496-504 and the drawing of lines 508-592 read the state without changing it and are left
  out.\<close>

definition simulate :: "(nat \<Rightarrow> real) \<Rightarrow> Game \<Rightarrow> Game" where
  "simulate rnd g =
     collisions rnd (entityUpdateLoop rnd (spawning rnd (shoot rnd
       (playerPhysics (g\<lparr>frameCount := frameCount g + 1\<rparr>)))))"

definition tick :: "(nat \<Rightarrow> real) \<Rightarrow> Game \<Rightarrow> Game" where
  "tick rnd g = cleanup (simulate rnd g)"

text \<open>Line 197: the tick runs only while the game is being played. Line 506: the game-over
  signal is raised after a tick that leaves the player's hp at zero or below.\<close>

definition update :: "(nat \<Rightarrow> real) \<Rightarrow> GameStatus \<Rightarrow> Game \<Rightarrow> Game" where
  "update rnd status g = (if status \<noteq> PLAYING then g else tick rnd g)"

definition gameOverSignal :: "Game \<Rightarrow> bool" where
  "gameOverSignal g \<longleftrightarrow> hp (player g) \<le> 0"

section \<open>Initial state (playerRef, initLevel)\<close>


definition mkPlatform :: "string \<Rightarrow> real \<Rightarrow> real \<Rightarrow> real \<Rightarrow> real \<Rightarrow> string \<Rightarrow> Entity" where
  "mkPlatform name px py w h col =
     \<lparr>id_e = name, type = Platform, subtype = None, weaponType = None,
      pos = \<lparr>x = px, y = py\<rparr>, vel = \<lparr>x = 0, y = 0\<rparr>,
      size_e = \<lparr>width = w, height = h\<rparr>, color = col,
      hp = 1, maxHp = 1, markedForDeletion = False, direction = 1,
      isGrounded = None, ttl = None, attackTimer = None, bossPhase = None,
      penetration = None\<rparr>"

text \<open>\<^verbatim>\<open>initLevel\<close> (lines 100-125): the run starts, or restarts, with the player reset,
  no entity, score and frame counter at zero, the boss flag clear and the four platforms
  laid out from the canvas extent.\<close>

definition initLevel :: "Game \<Rightarrow> Game" where
  "initLevel g =
     g\<lparr>player := (player g)\<lparr>pos := \<lparr>x = 100, y = height (canvas g) - 150\<rparr>,
                              vel := \<lparr>x = 0, y = 0\<rparr>, hp := 100,
                              weaponType := Some Rifle, markedForDeletion := False\<rparr>,
       entities := [], score := 0, frameCount := 0, bossActive := False,
       platforms :=
         [mkPlatform ''floor'' 0 (height (canvas g) - 40) (width (canvas g)) 40 ''#334155'',
          mkPlatform ''p1'' 300 (height (canvas g) - 180) 200 20 ''#475569'',
          mkPlatform ''p2'' 600 (height (canvas g) - 300) 200 20 ''#475569'',
          mkPlatform ''p3'' 100 (height (canvas g) - 350) 150 20 ''#475569'']\<rparr>"

section \<open>Relations used in the proofs\<close>

text \<open>
  What the collision phase may do to an entity (\<open>entStep\<close>: only hp, removal flag and
  penetration change, hp never rises, a flag is never cleared, and no entity is left with
  hp at or below zero unflagged unless it already was), to the entity array (\<open>listStep\<close>:
  the old indices keep their entities, particles are appended), to the player
  (\<open>playerStep\<close>) and to the whole state (\<open>collStep\<close>); and what the update loop keeps
  of an entity (\<open>sameStatic\<close>) and pushes (\<open>isShot\<close>).
\<close>

definition core :: "Entity \<Rightarrow> Entity" where
  "core e = e\<lparr>hp := 0, markedForDeletion := False, penetration := None\<rparr>"

definition entStep :: "Entity \<Rightarrow> Entity \<Rightarrow> bool" where
  "entStep e e' \<longleftrightarrow>
     core e' = core e \<and> hp e' \<le> hp e \<and>
     (markedForDeletion e \<longrightarrow> markedForDeletion e') \<and>
     (hp e' \<le> 0 \<and> \<not> markedForDeletion e' \<longrightarrow> hp e \<le> 0 \<and> \<not> markedForDeletion e)"

definition isSpark :: "Entity \<Rightarrow> bool" where
  "isSpark e \<longleftrightarrow> type e = Particle \<and> subtype e = None \<and> (0 < hp e \<or> markedForDeletion e)"

definition listStep :: "Entity list \<Rightarrow> Entity list \<Rightarrow> bool" where
  "listStep es es' \<longleftrightarrow>
     length es \<le> length es' \<and>
     (\<forall>k<length es. entStep (es ! k) (es' ! k)) \<and>
     (\<forall>k. length es \<le> k \<and> k < length es' \<longrightarrow> isSpark (es' ! k))"

definition pcore :: "Entity \<Rightarrow> Entity" where
  "pcore p = p\<lparr>hp := 0, vel := \<lparr>x = 0, y = 0\<rparr>, weaponType := None\<rparr>"

definition playerStep :: "Entity \<Rightarrow> Entity \<Rightarrow> bool" where
  "playerStep p p' \<longleftrightarrow>
     pcore p' = pcore p \<and>
     hp p' \<le> hp p \<and>
     ((vel p' = vel p \<and> hp p' = hp p) \<or>
      (hp p' < hp p \<and> y (vel p') = - 5 \<and> (x (vel p') = 10 \<or> x (vel p') = - 10)))"

definition collStep :: "Game \<Rightarrow> Game \<Rightarrow> bool" where
  "collStep g g' \<longleftrightarrow>
     frameCount g' = frameCount g \<and> platforms g' = platforms g \<and> canvas g' = canvas g \<and>
     input g' = input g \<and> score g \<le> score g' \<and>
     listStep (entities g) (entities g') \<and> playerStep (player g) (player g')"

definition sameStatic :: "Entity \<Rightarrow> Entity \<Rightarrow> bool" where
  "sameStatic e e' \<longleftrightarrow>
     type e' = type e \<and> subtype e' = subtype e \<and> hp e' = hp e \<and> maxHp e' = maxHp e \<and>
     size_e e' = size_e e \<and> penetration e' = penetration e \<and>
     (markedForDeletion e \<longrightarrow> markedForDeletion e')"

definition isShot :: "Entity \<Rightarrow> bool" where
  "isShot q \<longleftrightarrow> type q = BossProjectile \<and> subtype q = None \<and> hp q = 1 \<and> \<not> markedForDeletion q"

definition isBullet :: "Entity \<Rightarrow> bool" where
  "isBullet b \<longleftrightarrow> type b = Bullet \<and> subtype b = None \<and> hp b = 1 \<and> \<not> markedForDeletion b"

definition isBoss :: "Entity \<Rightarrow> bool" where
  "isBoss e \<longleftrightarrow> subtype e = Some Boss"

definition isOrdinaryEnemy :: "Entity \<Rightarrow> bool" where
  "isOrdinaryEnemy e \<longleftrightarrow> type e = Enemy \<and> subtype e \<noteq> Some Boss"

definition isPowerup :: "Entity \<Rightarrow> bool" where
  "isPowerup e \<longleftrightarrow> type e = Powerup"

definition sound :: "Entity list \<Rightarrow> bool" where
  "sound es \<longleftrightarrow> (\<forall>e\<in>set es. 0 < hp e \<or> markedForDeletion e)"

text \<open>
  \<open>landedOn ps e\<close>: the entity is grounded, its vertical velocity is 0 and its bottom
  edge is on the top of one of the platforms \<open>ps\<close>. \<open>liveContact rnd g i\<close>: the entity
  at index \<open>i\<close> is an enemy or an enemy projectile, overlaps the player, and is not flagged
  when the collision loop, started in state \<open>g\<close>, reaches index \<open>i\<close>.
\<close>

definition landedOn :: "Entity list \<Rightarrow> Entity \<Rightarrow> bool" where
  "landedOn ps e \<longleftrightarrow>
     isGrounded e = Some True \<and> y (vel e) = 0 \<and>
     (\<exists>pl\<in>set ps. y (pos e) + height (size_e e) = y (pos pl))"

definition liveContact :: "(nat \<Rightarrow> real) \<Rightarrow> Game \<Rightarrow> nat \<Rightarrow> bool" where
  "liveContact rnd g i \<longleftrightarrow>
     (type (entities g ! i) = Enemy \<or> type (entities g ! i) = BossProjectile) \<and>
     isColliding (player g) (entities g ! i) \<and>
     \<not> markedForDeletion (entities (fold (collideEntity rnd) [0..<i] g) ! i)"

section \<open>Example states\<close>

text \<open>
  Concrete states on an 800 by 600 canvas with the platforms \<^verbatim>\<open>initLevel\<close> lays out for
  it, and a random stream that always returns one half. \<open>contactState\<close>: the player
  stands on the floor with 10 hp and two runners walk into it. \<open>twoTargets\<close>: one rifle
  bullet is about to overlap two runners. \<open>bossFight\<close>: a boss in phase 2 with 1 hp left
  and a rifle bullet about to hit it, two frames before frame 3600.
\<close>

definition rnd0 :: "nat \<Rightarrow> real" where
  "rnd0 k = 1 / 2"

definition noInput :: Input where
  "noInput = \<lparr>left = False, right = False, up = False, down = False, jump = False, fire = False\<rparr>"

definition standingPlayer :: "int \<Rightarrow> Entity" where
  "standingPlayer h =
     \<lparr>id_e = ''player'', type = Player, subtype = None, weaponType = Some Rifle,
      pos = \<lparr>x = 100, y = 512\<rparr>, vel = \<lparr>x = 0, y = 0\<rparr>,
      size_e = \<lparr>width = 32, height = 48\<rparr>, color = ''#3b82f6'',
      hp = h, maxHp = 100, markedForDeletion = False, direction = 1,
      isGrounded = Some True, ttl = None, attackTimer = None, bossPhase = None,
      penetration = None\<rparr>"

definition runnerAt :: "real \<Rightarrow> real \<Rightarrow> Entity" where
  "runnerAt px py =
     \<lparr>id_e = ''enemy-'', type = Enemy, subtype = Some Runner, weaponType = None,
      pos = \<lparr>x = px, y = py\<rparr>, vel = \<lparr>x = - 2, y = 0\<rparr>,
      size_e = \<lparr>width = 32, height = 32\<rparr>, color = ''#22c55e'',
      hp = 3, maxHp = 3, markedForDeletion = False, direction = - 1,
      isGrounded = Some True, ttl = None, attackTimer = Some 0,
      bossPhase = None, penetration = None\<rparr>"

definition rifleBulletAt :: "real \<Rightarrow> real \<Rightarrow> Entity" where
  "rifleBulletAt px py =
     \<lparr>id_e = ''b-'', type = Bullet, subtype = None, weaponType = None,
      pos = \<lparr>x = px, y = py\<rparr>, vel = \<lparr>x = 12, y = 0\<rparr>,
      size_e = \<lparr>width = 8, height = 4\<rparr>, color = ''#facc15'',
      hp = 1, maxHp = 1, markedForDeletion = False, direction = 1,
      isGrounded = None, ttl = None, attackTimer = None, bossPhase = None,
      penetration = Some 1\<rparr>"

definition woundedBoss :: Entity where
  "woundedBoss =
     \<lparr>id_e = ''boss'', type = Enemy, subtype = Some Boss, weaponType = None,
      pos = \<lparr>x = 630, y = 300\<rparr>, vel = \<lparr>x = - 1, y = 0\<rparr>,
      size_e = \<lparr>width = 120, height = 200\<rparr>, color = ''#ef4444'',
      hp = 1, maxHp = 150, markedForDeletion = False, direction = - 1,
      isGrounded = None, ttl = None, attackTimer = Some 1, bossPhase = Some 2,
      penetration = None\<rparr>"

definition level800 :: "int \<Rightarrow> int \<Rightarrow> bool \<Rightarrow> Entity \<Rightarrow> Entity list \<Rightarrow> Game" where
  "level800 fc sc act p es =
     \<lparr>frameCount = fc, bossActive = act, player = p, entities = es,
      platforms =
        [mkPlatform ''floor'' 0 560 800 40 ''#334155'',
         mkPlatform ''p1'' 300 420 200 20 ''#475569'',
         mkPlatform ''p2'' 600 300 200 20 ''#475569'',
         mkPlatform ''p3'' 100 250 150 20 ''#475569''],
      score = sc, input = noInput, canvas = \<lparr>width = 800, height = 600\<rparr>, randomCalls = 0\<rparr>"

definition contactState :: Game where
  "contactState = level800 0 0 False (standingPlayer 10) [runnerAt 110 528, runnerAt 120 528]"

definition twoTargets :: Game where
  "twoTargets = level800 0 0 False (standingPlayer 100)
     [rifleBulletAt 400 540, runnerAt 416 528, runnerAt 420 528]"

definition bossFight :: Game where
  "bossFight = level800 3598 1600 True (standingPlayer 100) [woundedBoss, rifleBulletAt 620 400]"

section \<open>The collision phase preserves the step relation\<close>

lemma core_sel:
  "type (core e) = type e" "subtype (core e) = subtype e" "pos (core e) = pos e"
  "vel (core e) = vel e" "size_e (core e) = size_e e" "bossPhase (core e) = bossPhase e"
  "isGrounded (core e) = isGrounded e" "maxHp (core e) = maxHp e" "color (core e) = color e"
  by (simp_all add: core_def)

lemma core_eq_type: "core a = core b \<Longrightarrow> type a = type b \<and> subtype a = subtype b"
  using core_sel(1,2) by metis

lemma entStep_refl: "entStep e e"
  by (simp add: entStep_def)

lemma entStep_trans:
  assumes "entStep a b" "entStep b c"
  shows "entStep a c"
proof -
  have 1: "core c = core a" using assms by (simp add: entStep_def)
  have 2: "hp c \<le> hp a" using assms unfolding entStep_def by linarith
  have 3: "markedForDeletion a \<longrightarrow> markedForDeletion c"
    using assms unfolding entStep_def by blast
  have 4: "hp c \<le> 0 \<and> \<not> markedForDeletion c \<longrightarrow> hp a \<le> 0 \<and> \<not> markedForDeletion a"
    using assms unfolding entStep_def by blast
  show ?thesis unfolding entStep_def using 1 2 3 4 by blast
qed

lemma entStep_isSpark:
  assumes "isSpark a" "entStep a b"
  shows "isSpark b"
proof -
  have "type b = type a \<and> subtype b = subtype a"
    using assms(2) core_eq_type unfolding entStep_def by blast
  moreover have "0 < hp b \<or> markedForDeletion b"
  proof (rule ccontr)
    assume "\<not> (0 < hp b \<or> markedForDeletion b)"
    then have "hp b \<le> 0 \<and> \<not> markedForDeletion b" by simp
    then have "hp a \<le> 0 \<and> \<not> markedForDeletion a"
      using assms(2) unfolding entStep_def by blast
    then show False using assms(1) unfolding isSpark_def by simp
  qed
  ultimately show ?thesis using assms(1) unfolding isSpark_def by simp
qed

lemma listStep_refl: "listStep es es"
  unfolding listStep_def
proof (intro conjI allI impI)
  show "length es \<le> length es" by simp
next
  fix k show "entStep (es ! k) (es ! k)" by (rule entStep_refl)
next
  fix k assume "length es \<le> k \<and> k < length es"
  then have False by linarith
  then show "isSpark (es ! k)" ..
qed

lemma listStep_trans:
  assumes "listStep a b" "listStep b c"
  shows "listStep a c"
  unfolding listStep_def
proof (intro conjI allI impI)
  show "length a \<le> length c" using assms unfolding listStep_def by linarith
next
  fix k assume k: "k < length a"
  then have "k < length b" using assms(1) unfolding listStep_def by linarith
  then have "entStep (b ! k) (c ! k)" using assms(2) unfolding listStep_def by blast
  moreover have "entStep (a ! k) (b ! k)" using assms(1) k unfolding listStep_def by blast
  ultimately show "entStep (a ! k) (c ! k)" using entStep_trans by blast
next
  fix k assume k: "length a \<le> k \<and> k < length c"
  show "isSpark (c ! k)"
  proof (cases "k < length b")
    case True
    then have "isSpark (b ! k)" using assms(1) k unfolding listStep_def by blast
    moreover have "entStep (b ! k) (c ! k)" using assms(2) True unfolding listStep_def by blast
    ultimately show ?thesis by (rule entStep_isSpark)
  next
    case False
    then have "length b \<le> k \<and> k < length c" using k by simp
    then show ?thesis using assms(2) unfolding listStep_def by blast
  qed
qed

lemma playerStep_refl: "playerStep p p"
  by (simp add: playerStep_def)

lemma playerStep_trans:
  assumes "playerStep a b" "playerStep b c"
  shows "playerStep a c"
proof -
  have 1: "pcore c = pcore a" using assms by (simp add: playerStep_def)
  have 2: "hp c \<le> hp a" using assms unfolding playerStep_def by linarith
  have ab: "(vel b = vel a \<and> hp b = hp a) \<or>
      (hp b < hp a \<and> y (vel b) = - 5 \<and> (x (vel b) = 10 \<or> x (vel b) = - 10))"
    and ab2: "hp b \<le> hp a"
    using assms(1) unfolding playerStep_def by blast+
  have bc: "(vel c = vel b \<and> hp c = hp b) \<or>
      (hp c < hp b \<and> y (vel c) = - 5 \<and> (x (vel c) = 10 \<or> x (vel c) = - 10))"
    using assms(2) unfolding playerStep_def by blast
  have 3: "(vel c = vel a \<and> hp c = hp a) \<or>
      (hp c < hp a \<and> y (vel c) = - 5 \<and> (x (vel c) = 10 \<or> x (vel c) = - 10))"
  proof (cases "vel c = vel b \<and> hp c = hp b")
    case True
    then show ?thesis using ab by auto
  next
    case False
    then have "hp c < hp b \<and> y (vel c) = - 5 \<and> (x (vel c) = 10 \<or> x (vel c) = - 10)"
      using bc by blast
    then show ?thesis using ab2 by auto
  qed
  show ?thesis unfolding playerStep_def using 1 2 3 by blast
qed

lemma collStep_refl: "collStep g g"
  by (simp add: collStep_def listStep_refl playerStep_refl)

lemma collStep_trans:
  assumes "collStep a b" "collStep b c"
  shows "collStep a c"
proof -
  have "listStep (entities a) (entities c)"
    using assms listStep_trans unfolding collStep_def by blast
  moreover have "playerStep (player a) (player c)"
    using assms playerStep_trans unfolding collStep_def by blast
  moreover have "score a \<le> score c" using assms unfolding collStep_def by linarith
  ultimately show ?thesis using assms unfolding collStep_def by simp
qed

lemma listStep_append_spark:
  assumes "isSpark q"
  shows "listStep es (es @ [q])"
  unfolding listStep_def
proof (intro conjI allI impI)
  show "length es \<le> length (es @ [q])" by simp
next
  fix k assume "k < length es"
  then show "entStep (es ! k) ((es @ [q]) ! k)"
    by (simp add: nth_append entStep_refl)
next
  fix k assume "length es \<le> k \<and> k < length (es @ [q])"
  then have "k = length es" by simp
  then show "isSpark ((es @ [q]) ! k)" using assms by simp
qed

lemma listStep_update:
  assumes "entStep (es ! i) v"
  shows "listStep es (es[i := v])"
  unfolding listStep_def
proof (intro conjI allI impI)
  show "length es \<le> length (es[i := v])" by simp
next
  fix k assume "k < length es"
  then show "entStep (es ! k) (es[i := v] ! k)"
    using assms by (cases "k = i") (simp_all add: entStep_refl)
next
  fix k assume "length es \<le> k \<and> k < length (es[i := v])"
  then have "length es \<le> k" "k < length es" by simp_all
  then have False by linarith
  then show "isSpark (es[i := v] ! k)" ..
qed

lemma collStep_spawnParticle: "collStep g (spawnParticle rnd a b c g)"
  by (simp add: collStep_def spawnParticle_def Let_def playerStep_refl
        listStep_append_spark isSpark_def)

lemma collStep_bossDeathParticle: "collStep g (bossDeathParticle rnd t g)"
proof -
  have "collStep g (g\<lparr>randomCalls := randomCalls g + 2\<rparr>)"
    by (simp add: collStep_def listStep_refl playerStep_refl)
  then show ?thesis
    unfolding bossDeathParticle_def Let_def
    by (rule collStep_trans) (rule collStep_spawnParticle)
qed

lemma collStep_funpow:
  assumes "\<And>h. collStep h (f h)"
  shows "collStep g ((f ^^ n) g)"
proof (induction n)
  case 0
  show ?case by (simp add: collStep_refl)
next
  case (Suc n)
  have "collStep g (f ((f ^^ n) g))"
    by (rule collStep_trans [OF Suc assms])
  then show ?case by simp
qed

lemma collStep_modifyEntity:
  "entStep (entities g ! i) (f (entities g ! i)) \<Longrightarrow> collStep g (modifyEntity i f g)"
  by (simp add: collStep_def modifyEntity_def playerStep_refl listStep_update)

lemma entStep_markDeleted: "entStep e (markDeleted e)"
  by (simp add: entStep_def markDeleted_def core_def)

lemma entStep_consumePenetration: "entStep e (consumePenetration e)"
  by (simp add: entStep_def consumePenetration_def markDeleted_def core_def split: option.split)

lemma collStep_length: "collStep g h \<Longrightarrow> length (entities g) \<le> length (entities h)"
  by (simp add: collStep_def listStep_def)

lemma collStep_fold_gen:
  assumes step: "\<And>k h. k \<in> S \<Longrightarrow> collStep g h \<Longrightarrow> collStep h (f k h)"
  shows "set ks \<subseteq> S \<Longrightarrow> collStep g h \<Longrightarrow> collStep g (fold f ks h)"
proof (induction ks arbitrary: h)
  case Nil
  then show ?case by simp
next
  case (Cons k ks)
  have "collStep h (f k h)" using step Cons.prems by simp
  then have "collStep g (f k h)" using Cons.prems(2) collStep_trans by blast
  then have "collStep g (fold f ks (f k h))" using Cons.IH Cons.prems(1) by simp
  then show ?case by simp
qed

lemma collStep_fold:
  assumes "\<And>k h. k \<in> set ks \<Longrightarrow> collStep g h \<Longrightarrow> collStep h (f k h)"
  shows "collStep g (fold f ks g)"
  using collStep_fold_gen [where S = "set ks" and f = f and g = g and h = g and ks = ks]
    assms collStep_refl by blast

lemma collStep_after_decrement:
  assumes j: "j < length (entities g)"
    and h: "collStep (modifyEntity j (\<lambda>t. t\<lparr>hp := hp t - 1\<rparr>) g) h"
    and dead: "hp (entities h ! j) \<le> 0 \<longrightarrow> markedForDeletion (entities h ! j)"
  shows "collStep g h"
proof -
  let ?g1 = "modifyEntity j (\<lambda>t. t\<lparr>hp := hp t - 1\<rparr>) g"
  have ls: "listStep (entities ?g1) (entities h)" using h by (simp add: collStep_def)
  have len: "length (entities ?g1) = length (entities g)" by (simp add: modifyEntity_def)
  have "listStep (entities g) (entities h)"
    unfolding listStep_def
  proof (intro conjI allI impI)
    show "length (entities g) \<le> length (entities h)"
      using ls len unfolding listStep_def by linarith
  next
    fix k assume k: "k < length (entities g)"
    then have e1: "entStep (entities ?g1 ! k) (entities h ! k)"
      using ls len unfolding listStep_def by simp
    show "entStep (entities g ! k) (entities h ! k)"
    proof (cases "k = j")
      case False
      then have "entities ?g1 ! k = entities g ! k" by (simp add: modifyEntity_def)
      then show ?thesis using e1 by simp
    next
      case True
      have eq: "entities ?g1 ! j = (entities g ! j)\<lparr>hp := hp (entities g ! j) - 1\<rparr>"
        using j by (simp add: modifyEntity_def)
      have c: "core (entities ?g1 ! j) = core (entities g ! j)"
        unfolding eq by (simp add: core_def)
      have hpj: "hp (entities ?g1 ! j) = hp (entities g ! j) - 1"
        unfolding eq by simp
      have mj: "markedForDeletion (entities ?g1 ! j) = markedForDeletion (entities g ! j)"
        unfolding eq by simp
      show ?thesis using e1 c hpj mj dead unfolding True entStep_def by auto
    qed
  next
    fix k assume "length (entities g) \<le> k \<and> k < length (entities h)"
    then show "isSpark (entities h ! k)" using ls len unfolding listStep_def by simp
  qed
  moreover have "frameCount ?g1 = frameCount g" "platforms ?g1 = platforms g"
    "canvas ?g1 = canvas g" "input ?g1 = input g" "score ?g1 = score g" "player ?g1 = player g"
    by (simp_all add: modifyEntity_def)
  ultimately show ?thesis using h unfolding collStep_def by simp
qed

lemma collStep_score: "0 \<le> n \<Longrightarrow> collStep g (g\<lparr>score := score g + n\<rparr>)"
  by (simp add: collStep_def listStep_refl playerStep_refl)

lemma collStep_bossActive: "collStep g (g\<lparr>bossActive := b\<rparr>)"
  by (simp add: collStep_def listStep_refl playerStep_refl)

lemma entities_spawnParticle:
  "\<exists>q. entities (spawnParticle rnd a b c g) = entities g @ [q]"
  by (simp add: spawnParticle_def Let_def)

lemma nth_spawnParticle:
  "k < length (entities g) \<Longrightarrow> entities (spawnParticle rnd a b c g) ! k = entities g ! k"
  by (simp add: spawnParticle_def Let_def nth_append)

lemma collStep_bulletVsTarget:
  assumes j: "j < length (entities g)"
  shows "collStep g (bulletVsTarget rnd i j g)"
proof (cases "type (entities g ! j) = Enemy \<and> \<not> markedForDeletion (entities g ! j) \<and>
            isColliding (entities g ! i) (entities g ! j)")
  case False
  then show ?thesis by (auto simp: bulletVsTarget_def Let_def collStep_refl)
next
  case True
  define g1 where "g1 = modifyEntity j (\<lambda>t. t\<lparr>hp := hp t - 1\<rparr>) g"
  define g2 where "g2 = modifyEntity i consumePenetration g1"
  define target2 where "target2 = entities g2 ! j"
  define g3 where "g3 = spawnParticle rnd (x (pos (entities g2 ! i))) (y (pos (entities g2 ! i)))
     (color target2) g2"
  define g6 where "g6 = (bossDeathParticle rnd target2 ^^ 50) (g3\<lparr>score := score g3 + 5000, bossActive := False\<rparr>)"
  define g4 where "g4 = g3\<lparr>score := score g3 + 100\<rparr>"
  have res: "bulletVsTarget rnd i j g =
     (if hp target2 \<le> 0 then
        (if subtype target2 = Some Boss then modifyEntity j markDeleted g6
         else modifyEntity j markDeleted g4)
      else g3)"
    using True unfolding bulletVsTarget_def g1_def g2_def target2_def g3_def g6_def g4_def Let_def
    by simp
  have s12: "collStep g1 g2" unfolding g2_def
    by (rule collStep_modifyEntity) (rule entStep_consumePenetration)
  have s23: "collStep g2 g3" unfolding g3_def by (rule collStep_spawnParticle)
  have s13: "collStep g1 g3" using s12 s23 by (rule collStep_trans)
  have len1: "length (entities g1) = length (entities g)" by (simp add: g1_def modifyEntity_def)
  have len2: "length (entities g2) = length (entities g)" by (simp add: g2_def modifyEntity_def len1)
  have t3: "entities g3 ! j = target2"
    unfolding g3_def target2_def using j len2 by (simp add: nth_spawnParticle)
  have mark: "\<And>h. j < length (entities h) \<Longrightarrow> markedForDeletion (entities (modifyEntity j markDeleted h) ! j)"
    by (simp add: modifyEntity_def markDeleted_def)
  show ?thesis
  proof (cases "hp target2 \<le> 0")
    case False
    then have r: "bulletVsTarget rnd i j g = g3" using res by simp
    show ?thesis unfolding r
      by (rule collStep_after_decrement [OF j]) (use s13 g1_def t3 False in auto)
  next
    case dead: True
    show ?thesis
    proof (cases "subtype target2 = Some Boss")
      case True
      have r: "bulletVsTarget rnd i j g = modifyEntity j markDeleted g6" using res dead True by simp
      have "collStep g3 (g3\<lparr>score := score g3 + 5000\<rparr>)" by (rule collStep_score) simp
      moreover have "collStep (g3\<lparr>score := score g3 + 5000\<rparr>) (g3\<lparr>score := score g3 + 5000, bossActive := False\<rparr>)"
        using collStep_bossActive [of "g3\<lparr>score := score g3 + 5000\<rparr>" False] by simp
      ultimately have "collStep g3 (g3\<lparr>score := score g3 + 5000, bossActive := False\<rparr>)"
        by (rule collStep_trans)
      moreover have "collStep (g3\<lparr>score := score g3 + 5000, bossActive := False\<rparr>) g6"
        unfolding g6_def by (rule collStep_funpow) (rule collStep_bossDeathParticle)
      ultimately have s36: "collStep g3 g6" by (rule collStep_trans)
      have s6f: "collStep g6 (modifyEntity j markDeleted g6)"
        by (rule collStep_modifyEntity) (rule entStep_markDeleted)
      have s1f: "collStep g1 (modifyEntity j markDeleted g6)"
        using s13 s36 s6f collStep_trans by blast
      have "j < length (entities g6)"
        using collStep_length [OF s13] collStep_length [OF s36] len1 j by linarith
      then have "markedForDeletion (entities (modifyEntity j markDeleted g6) ! j)" by (rule mark)
      then show ?thesis unfolding r
        using collStep_after_decrement [OF j] s1f g1_def by blast
    next
      case False
      have r: "bulletVsTarget rnd i j g = modifyEntity j markDeleted g4" using res dead False by simp
      have s34: "collStep g3 g4" unfolding g4_def by (rule collStep_score) simp
      have s4f: "collStep g4 (modifyEntity j markDeleted g4)"
        by (rule collStep_modifyEntity) (rule entStep_markDeleted)
      have s1f: "collStep g1 (modifyEntity j markDeleted g4)"
        using s13 s34 s4f collStep_trans by blast
      have "j < length (entities g4)"
        using collStep_length [OF s13] collStep_length [OF s34] len1 j by linarith
      then have "markedForDeletion (entities (modifyEntity j markDeleted g4) ! j)" by (rule mark)
      then show ?thesis unfolding r
        using collStep_after_decrement [OF j] s1f g1_def by blast
    qed
  qed
qed

lemma collStep_playerVsPowerup: "collStep g (playerVsPowerup rnd i g)"
proof (cases "isColliding (player g) (entities g ! i)")
  case False
  then show ?thesis by (simp add: playerVsPowerup_def Let_def collStep_refl)
next
  case True
  define g2 where "g2 = g\<lparr>player := (player g)\<lparr>weaponType := weaponType (entities g ! i)\<rparr>,
                           score := score g + 500\<rparr>"
  define g3 where "g3 = modifyEntity i markDeleted g2"
  let ?f = "\<lambda>h. spawnParticle rnd (x (pos (player h))) (y (pos (player h))) ''#fff'' h"
  have res: "playerVsPowerup rnd i g = (?f ^^ 10) g3"
    using True unfolding playerVsPowerup_def g2_def g3_def Let_def by simp
  have "collStep g g2"
    by (simp add: g2_def collStep_def listStep_refl playerStep_def pcore_def)
  moreover have "collStep g2 g3" unfolding g3_def
    by (rule collStep_modifyEntity) (rule entStep_markDeleted)
  moreover have "collStep g3 ((?f ^^ 10) g3)"
    by (rule collStep_funpow) (rule collStep_spawnParticle)
  ultimately show ?thesis unfolding res using collStep_trans by blast
qed

lemma collStep_threatVsPlayer: "collStep g (threatVsPlayer rnd i g)"
proof (cases "isColliding (player g) (entities g ! i)")
  case False
  then show ?thesis by (simp add: threatVsPlayer_def Let_def collStep_refl)
next
  case True
  define g1 where "g1 = g\<lparr>player := (player g)\<lparr>hp := hp (player g) - 10\<rparr>\<rparr>"
  define g2 where "g2 = (if type (entities g ! i) = BossProjectile then modifyEntity i markDeleted g1 else g1)"
  define p4 where "p4 = (player g2)\<lparr>vel := (vel (player g2))\<lparr>x := (if x (pos (entities g ! i)) > x (pos (player g2)) then - 10 else 10), y := - 5\<rparr>\<rparr>"
  define g3 where "g3 = g2\<lparr>player := p4\<rparr>"
  have res: "threatVsPlayer rnd i g = spawnParticle rnd (x (pos p4)) (y (pos p4)) ''#ef4444'' g3"
    using True unfolding threatVsPlayer_def g1_def g2_def p4_def g3_def Let_def
    by (simp cong: if_cong)
  have pl2: "player g2 = (player g)\<lparr>hp := hp (player g) - 10\<rparr>"
    by (simp add: g2_def g1_def modifyEntity_def)
  have "collStep g g3"
  proof -
    have "listStep (entities g) (entities g3)"
      unfolding g3_def g2_def g1_def
      by (simp add: modifyEntity_def listStep_refl listStep_update entStep_markDeleted)
    moreover have "playerStep (player g) (player g3)"
      unfolding g3_def p4_def pl2 by (simp add: playerStep_def pcore_def)
    moreover have "frameCount g3 = frameCount g" "platforms g3 = platforms g"
      "canvas g3 = canvas g" "input g3 = input g" "score g3 = score g"
      by (simp_all add: g3_def g2_def g1_def modifyEntity_def)
    ultimately show ?thesis by (simp add: collStep_def)
  qed
  then show ?thesis unfolding res using collStep_spawnParticle collStep_trans by blast
qed

lemma collStep_collideEntity: "collStep g (collideEntity rnd i g)"
proof -
  have inner: "collStep g (fold (bulletVsTarget rnd i) [0..<length (entities g)] g)"
  proof (rule collStep_fold)
    fix k h assume "k \<in> set [0..<length (entities g)]" "collStep g h"
    then have "k < length (entities h)" using collStep_length [of g h] by simp
    then show "collStep h (bulletVsTarget rnd i k h)" by (rule collStep_bulletVsTarget)
  qed
  show ?thesis
    unfolding collideEntity_def Let_def
    using inner collStep_refl collStep_playerVsPowerup collStep_threatVsPlayer by simp
qed

lemma collStep_collisions: "collStep g (collisions rnd g)"
  unfolding collisions_def
  by (rule collStep_fold) (rule collStep_collideEntity)

section \<open>The update loop keeps hp, kind and extent of every entity\<close>

lemma sameStatic_refl: "sameStatic e e"
  by (simp add: sameStatic_def)

lemma sameStatic_trans: "sameStatic a b \<Longrightarrow> sameStatic b c \<Longrightarrow> sameStatic a c"
  by (simp add: sameStatic_def)

lemma sameStatic_addVelX: "sameStatic e (addVelX e)"
  by (simp add: sameStatic_def addVelX_def)

lemma sameStatic_addVelY: "sameStatic e (addVelY e)"
  by (simp add: sameStatic_def addVelY_def)

lemma sameStatic_markDeleted: "sameStatic e (markDeleted e)"
  by (simp add: sameStatic_def markDeleted_def)

lemma sameStatic_applyGravity: "sameStatic e (applyGravity e)"
  by (simp add: sameStatic_def applyGravity_def)

lemma sameStatic_landOn: "sameStatic e (landOn pl e)"
  by (simp add: sameStatic_def landOn_def)

lemma sameStatic_resolvePlatforms: "sameStatic e (resolvePlatforms ps e)"
  unfolding resolvePlatforms_def
proof (induction ps arbitrary: e)
  case Nil
  show ?case by (simp add: sameStatic_refl)
next
  case (Cons pl ps)
  have "sameStatic e (landOn pl e)" by (rule sameStatic_landOn)
  then show ?case using Cons [of "landOn pl e"] sameStatic_trans by auto
qed

lemma sameStatic_updatePowerup: "sameStatic e (updatePowerup fc e)"
  by (simp add: sameStatic_def updatePowerup_def addVelX_def markDeleted_def Let_def)

lemma sameStatic_updateBoss: "sameStatic e (fst (updateBoss cv fc p e))"
  by (simp add: sameStatic_def updateBoss_def Let_def)

lemma shots_updateBoss: "q \<in> set (snd (updateBoss cv fc p e)) \<Longrightarrow> isShot q"
  by (auto simp: updateBoss_def Let_def isShot_def bossAimedShot_def bossSpreadShot_def
      split: if_splits)

lemma sameStatic_updateDrone: "sameStatic e (fst (updateDrone rnd fc p e rc))"
  by (simp add: sameStatic_def updateDrone_def addVelX_def Let_def)

lemma shots_updateDrone: "q \<in> set (fst (snd (updateDrone rnd fc p e rc))) \<Longrightarrow> isShot q"
  by (auto simp: updateDrone_def Let_def isShot_def droneBomb_def split: if_splits)

lemma sameStatic_updateJumper: "sameStatic e (fst (updateJumper rnd p e rc))"
  by (simp add: sameStatic_def updateJumper_def addVelX_def Let_def)

lemma shots_updateJumper: "fst (snd (updateJumper rnd p e rc)) = []"
  by (simp add: updateJumper_def Let_def)

lemma sameStatic_moveEnemy: "sameStatic e (fst (moveEnemy rnd cv fc p e rc))"
proof -
  have a: "\<And>e1. sameStatic e e1 \<Longrightarrow> sameStatic e (addVelY (addVelX e1))"
    using sameStatic_addVelX sameStatic_addVelY sameStatic_trans by blast
  show ?thesis
    unfolding moveEnemy_def Let_def
    using a sameStatic_updateBoss [of e cv fc p] sameStatic_updateDrone [of e rnd fc p rc]
      sameStatic_updateJumper [of e rnd p rc] sameStatic_addVelX [of e]
    by (simp add: split_beta)
qed

lemma shots_moveEnemy: "q \<in> set (fst (snd (moveEnemy rnd cv fc p e rc))) \<Longrightarrow> isShot q"
  unfolding moveEnemy_def Let_def
  using shots_updateBoss [of q cv fc p e] shots_updateDrone [of q rnd fc p e rc]
    shots_updateJumper [of rnd p e rc]
  by (simp add: split_beta split: if_splits)

lemma sameStatic_settleEnemy: "sameStatic e (settleEnemy cv ps e)"
proof -
  have m: "\<And>a. sameStatic e a \<Longrightarrow> sameStatic e (markDeleted a)"
    using sameStatic_markDeleted sameStatic_trans by blast
  show ?thesis
    unfolding settleEnemy_def Let_def
    using m sameStatic_resolvePlatforms [of e ps] sameStatic_refl [of e]
    by simp
qed

lemma sameStatic_updateEnemy: "sameStatic e (fst (updateEnemy rnd cv fc ps p e rc))"
  unfolding updateEnemy_def
  using sameStatic_moveEnemy [of e rnd cv fc p rc]
    sameStatic_settleEnemy [of "fst (moveEnemy rnd cv fc p e rc)" cv ps] sameStatic_trans
  by (auto simp: split_beta)

lemma shots_updateEnemy: "q \<in> set (fst (snd (updateEnemy rnd cv fc ps p e rc))) \<Longrightarrow> isShot q"
  unfolding updateEnemy_def using shots_moveEnemy [of q rnd cv fc p e rc]
  by (simp add: split_beta)

lemma sameStatic_updateProjectile: "sameStatic e (updateProjectile cv e)"
  by (simp add: sameStatic_def updateProjectile_def addVelX_def addVelY_def markDeleted_def
      Let_def split: option.split)

lemma sameStatic_updateParticle: "sameStatic e (updateParticle e)"
  by (simp add: sameStatic_def updateParticle_def addVelX_def addVelY_def markDeleted_def
      Let_def split: option.split)

lemma sameStatic_updateEntity: "sameStatic e (fst (updateEntity rnd cv fc ps p e rc))"
proof -
  have g: "sameStatic e (applyGravity e)" by (rule sameStatic_applyGravity)
  have "sameStatic e (updatePowerup fc (applyGravity e))"
    "sameStatic e (fst (updateEnemy rnd cv fc ps p (applyGravity e) rc))"
    "sameStatic e (updateProjectile cv (applyGravity e))"
    "sameStatic e (updateParticle (applyGravity e))"
    using g sameStatic_updatePowerup sameStatic_updateEnemy sameStatic_updateProjectile
      sameStatic_updateParticle sameStatic_trans by blast+
  then show ?thesis
    unfolding updateEntity_def Let_def using g sameStatic_refl [of e] by simp
qed

lemma shots_updateEntity:
  "q \<in> set (fst (snd (updateEntity rnd cv fc ps p e rc))) \<Longrightarrow> isShot q"
  unfolding updateEntity_def Let_def
  using shots_updateEnemy [of q rnd cv fc ps p "applyGravity e" rc]
  by (simp split: if_splits)

lemma updateEntity_marked:
  "markedForDeletion e \<Longrightarrow> updateEntity rnd cv fc ps p e rc = (e, [], rc)"
  by (simp add: updateEntity_def)

lemma updateEntities_length:
  "length (fst (updateEntities rnd cv fc ps p es rc)) = length es"
  by (induction es arbitrary: rc) (simp_all add: split_beta Let_def)

lemma updateEntities_nth:
  "i < length es \<Longrightarrow>
   \<exists>rc'. fst (updateEntities rnd cv fc ps p es rc) ! i = fst (updateEntity rnd cv fc ps p (es ! i) rc')"
proof (induction es arbitrary: rc i)
  case Nil
  then show ?case by simp
next
  case (Cons e es)
  show ?case
  proof (cases i)
    case 0
    then show ?thesis by (auto simp: split_beta Let_def)
  next
    case (Suc k)
    then have "k < length es" using Cons.prems by simp
    then obtain rc' where
      "fst (updateEntities rnd cv fc ps p es (snd (snd (updateEntity rnd cv fc ps p e rc)))) ! k =
       fst (updateEntity rnd cv fc ps p (es ! k) rc')"
      using Cons.IH by blast
    then show ?thesis using Suc by (auto simp: split_beta Let_def)
  qed
qed

lemma updateEntities_shots:
  "q \<in> set (fst (snd (updateEntities rnd cv fc ps p es rc))) \<Longrightarrow> isShot q"
proof (induction es arbitrary: rc)
  case Nil
  then show ?case by simp
next
  case (Cons e es)
  then show ?case using shots_updateEntity [of q rnd cv fc ps p e rc]
    by (auto simp: split_beta Let_def)
qed

section \<open>What each phase before the collisions leaves unchanged\<close>

lemma playerPhysics_fields:
  "entities (playerPhysics g) = entities g" "score (playerPhysics g) = score g"
  "bossActive (playerPhysics g) = bossActive g" "frameCount (playerPhysics g) = frameCount g"
  "platforms (playerPhysics g) = platforms g" "canvas (playerPhysics g) = canvas g"
  "input (playerPhysics g) = input g"
  by (simp_all add: playerPhysics_def Let_def)

lemma shoot_fields:
  "score (shoot rnd g) = score g" "bossActive (shoot rnd g) = bossActive g"
  "frameCount (shoot rnd g) = frameCount g" "platforms (shoot rnd g) = platforms g"
  "canvas (shoot rnd g) = canvas g" "player (shoot rnd g) = player g"
  "input (shoot rnd g) = input g"
  by (simp_all add: shoot_def Let_def)

lemma shoot_entities:
  "\<exists>bs. entities (shoot rnd g) = entities g @ bs \<and> (\<forall>b\<in>set bs. isBullet b)"
  by (simp add: shoot_def Let_def isBullet_def spawnBullet_def)

lemma spawnBoss_fields:
  "score (spawnBoss g) = score g" "frameCount (spawnBoss g) = frameCount g"
  "platforms (spawnBoss g) = platforms g" "canvas (spawnBoss g) = canvas g"
  "player (spawnBoss g) = player g" "input (spawnBoss g) = input g"
  by (simp_all add: spawnBoss_def)

lemma spawnEnemy_fields:
  "score (spawnEnemy rnd g) = score g" "frameCount (spawnEnemy rnd g) = frameCount g"
  "platforms (spawnEnemy rnd g) = platforms g" "canvas (spawnEnemy rnd g) = canvas g"
  "player (spawnEnemy rnd g) = player g" "bossActive (spawnEnemy rnd g) = bossActive g"
  "input (spawnEnemy rnd g) = input g"
  by (simp_all add: spawnEnemy_def Let_def)

lemma spawnPowerup_fields:
  "score (spawnPowerup rnd g) = score g" "frameCount (spawnPowerup rnd g) = frameCount g"
  "platforms (spawnPowerup rnd g) = platforms g" "canvas (spawnPowerup rnd g) = canvas g"
  "player (spawnPowerup rnd g) = player g" "bossActive (spawnPowerup rnd g) = bossActive g"
  "input (spawnPowerup rnd g) = input g"
  by (simp_all add: spawnPowerup_def Let_def)

lemma spawning_fields:
  "score (spawning rnd g) = score g" "frameCount (spawning rnd g) = frameCount g"
  "platforms (spawning rnd g) = platforms g" "canvas (spawning rnd g) = canvas g"
  "player (spawning rnd g) = player g" "input (spawning rnd g) = input g"
  by (simp_all add: spawning_def Let_def spawnBoss_fields spawnEnemy_fields spawnPowerup_fields)

lemma spawning_bossActive:
  "bossActive (spawning rnd g) = (bossActive g \<or> bossTrigger g)"
  by (auto simp: spawning_def Let_def spawnEnemy_fields spawnPowerup_fields spawnBoss_def
      bossTrigger_def)

lemma entityUpdateLoop_fields:
  "score (entityUpdateLoop rnd g) = score g" "frameCount (entityUpdateLoop rnd g) = frameCount g"
  "platforms (entityUpdateLoop rnd g) = platforms g" "canvas (entityUpdateLoop rnd g) = canvas g"
  "player (entityUpdateLoop rnd g) = player g" "bossActive (entityUpdateLoop rnd g) = bossActive g"
  "input (entityUpdateLoop rnd g) = input g"
  by (simp_all add: entityUpdateLoop_def Let_def split_beta)

lemma cleanup_fields:
  "score (cleanup g) = score g" "frameCount (cleanup g) = frameCount g"
  "platforms (cleanup g) = platforms g" "canvas (cleanup g) = canvas g"
  "player (cleanup g) = player g" "bossActive (cleanup g) = bossActive g"
  "input (cleanup g) = input g"
  by (simp_all add: cleanup_def)

lemma score_before_collisions:
  "score (entityUpdateLoop rnd (spawning rnd (shoot rnd
       (playerPhysics (g\<lparr>frameCount := frameCount g + 1\<rparr>))))) = score g"
  by (simp add: entityUpdateLoop_fields spawning_fields shoot_fields playerPhysics_fields)

section \<open>Counting entities by kind through a tick\<close>

lemmas model_defs = tick_def simulate_def cleanup_def collisions_def collideEntity_def
  threatVsPlayer_def playerVsPowerup_def bulletVsTarget_def bossDeathParticle_def
  consumePenetration_def modifyEntity_def spawnParticle_def isColliding_def
  entityUpdateLoop_def updateEntity_def updateParticle_def updateProjectile_def
  updateEnemy_def settleEnemy_def moveEnemy_def updateJumper_def updateDrone_def droneBomb_def
  updateBoss_def bossSpreadShot_def bossAimedShot_def updatePowerup_def applyGravity_def
  markDeleted_def addVelX_def addVelY_def spawning_def bossTrigger_def spawnBoss_def
  spawnEnemy_def spawnPowerup_def shoot_def spawnBullet_def playerPhysics_def
  resolvePlatforms_def landOn_def landing_def boundsPlayer_def integratePlayer_def
  GRAVITY_def FRICTION_def PLAYER_SPEED_def BOSS_SPAWN_SCORE_def

lemmas scene_defs = rnd0_def noInput_def standingPlayer_def runnerAt_def rifleBulletAt_def
  woundedBoss_def level800_def mkPlatform_def contactState_def twoTargets_def bossFight_def

lemma sin_bounds: "- 1 \<le> sin (t::real) \<and> sin t \<le> 1"
  by simp

lemma funpow_10: "(f ^^ 10) a = f (f (f (f (f (f (f (f (f (f a)))))))))"
  by (simp add: eval_nat_numeral)

lemma funpow_50: "(f ^^ 50) a = (f ^^ 10) ((f ^^ 10) ((f ^^ 10) ((f ^^ 10) ((f ^^ 10) a))))"
proof -
  have "(50::nat) = 10 + (10 + (10 + (10 + 10)))" by simp
  then have "(f ^^ 50) a = (f ^^ (10 + (10 + (10 + (10 + 10))))) a" by simp
  then show ?thesis unfolding funpow_add by simp
qed

lemma count_eq_nth:
  assumes "length xs = length ys"
    and "\<And>k. k < length xs \<Longrightarrow> P (ys ! k) = P (xs ! k)"
  shows "length (filter P ys) = length (filter P xs)"
  using assms
proof (induction xs ys rule: list_induct2)
  case Nil
  show ?case by simp
next
  case (Cons a xs b ys)
  have h: "P b = P a" using Cons.prems [of 0] by simp
  have "\<And>k. k < length xs \<Longrightarrow> P (ys ! k) = P (xs ! k)"
    using Cons.prems [of "Suc k" for k] by simp
  then have "length (filter P ys) = length (filter P xs)" by (rule Cons.IH)
  then show ?case using h by simp
qed

lemma listStep_count:
  assumes ls: "listStep es es'"
    and kind: "\<And>e e'. type e' = type e \<Longrightarrow> subtype e' = subtype e \<Longrightarrow> P e' = P e"
    and spark: "\<And>q. type q = Particle \<Longrightarrow> subtype q = None \<Longrightarrow> \<not> P q"
  shows "length (filter P es') = length (filter P es)"
proof -
  let ?n = "length es"
  have len: "?n \<le> length es'" using ls by (simp add: listStep_def)
  have a: "length (filter P (take ?n es')) = length (filter P es)"
  proof (rule count_eq_nth)
    show "length es = length (take ?n es')" using len by simp
  next
    fix k assume k: "k < length es"
    then have "entStep (es ! k) (es' ! k)" using ls by (simp add: listStep_def)
    then have "core (es' ! k) = core (es ! k)" by (simp add: entStep_def)
    then have "type (es' ! k) = type (es ! k) \<and> subtype (es' ! k) = subtype (es ! k)"
      by (rule core_eq_type)
    then have "P (es' ! k) = P (es ! k)" using kind by blast
    then show "P (take ?n es' ! k) = P (es ! k)" using k by simp
  qed
  have b: "filter P (drop ?n es') = []"
  proof -
    have "\<not> P q" if qin: "q \<in> set (drop ?n es')" for q
    proof -
      obtain k where k: "k < length (drop ?n es')" "drop ?n es' ! k = q"
        using qin unfolding in_set_conv_nth by blast
      then have "length es \<le> ?n + k \<and> ?n + k < length es'" using len by simp
      then have "isSpark (es' ! (?n + k))" using ls unfolding listStep_def by blast
      moreover have "es' ! (?n + k) = q" using k len by simp
      ultimately show ?thesis using spark by (simp add: isSpark_def)
    qed
    then show ?thesis by (simp add: filter_empty_conv)
  qed
  have "filter P es' = filter P (take ?n es') @ filter P (drop ?n es')"
    by (metis append_take_drop_id filter_append)
  then show ?thesis using a b by simp
qed

lemma entityUpdateLoop_entities:
  "\<exists>es' new. entities (entityUpdateLoop rnd g) = es' @ new \<and> length es' = length (entities g) \<and>
     (\<forall>k<length (entities g). sameStatic (entities g ! k) (es' ! k)) \<and> (\<forall>q\<in>set new. isShot q)"
proof -
  let ?r = "updateEntities rnd (canvas g) (frameCount g) (platforms g) (player g)
              (entities g) (randomCalls g)"
  have e: "entities (entityUpdateLoop rnd g) = fst ?r @ fst (snd ?r)"
    by (simp add: entityUpdateLoop_def split_beta)
  have l: "length (fst ?r) = length (entities g)" by (rule updateEntities_length)
  have s: "\<forall>k<length (entities g). sameStatic (entities g ! k) (fst ?r ! k)"
  proof (intro allI impI)
    fix k assume "k < length (entities g)"
    then obtain rc' where "fst ?r ! k =
        fst (updateEntity rnd (canvas g) (frameCount g) (platforms g) (player g) (entities g ! k) rc')"
      using updateEntities_nth by blast
    then show "sameStatic (entities g ! k) (fst ?r ! k)"
      using sameStatic_updateEntity by simp
  qed
  have n: "\<forall>q\<in>set (fst (snd ?r)). isShot q" using updateEntities_shots by blast
  show ?thesis using e l s n by blast
qed

lemma entityUpdateLoop_count:
  assumes kind: "\<And>e e'. type e' = type e \<Longrightarrow> subtype e' = subtype e \<Longrightarrow> P e' = P e"
    and shot: "\<And>q. type q = BossProjectile \<Longrightarrow> subtype q = None \<Longrightarrow> \<not> P q"
  shows "length (filter P (entities (entityUpdateLoop rnd g))) = length (filter P (entities g))"
proof -
  obtain es' new where r: "entities (entityUpdateLoop rnd g) = es' @ new"
    "length es' = length (entities g)"
    "\<forall>k<length (entities g). sameStatic (entities g ! k) (es' ! k)" "\<forall>q\<in>set new. isShot q"
    using entityUpdateLoop_entities by blast
  have a: "length (filter P es') = length (filter P (entities g))"
  proof (rule count_eq_nth)
    show "length (entities g) = length es'" using r(2) by simp
  next
    fix k assume "k < length (entities g)"
    then have "sameStatic (entities g ! k) (es' ! k)" using r(3) by simp
    then show "P (es' ! k) = P (entities g ! k)" using kind unfolding sameStatic_def by blast
  qed
  have "\<not> P q" if qn: "q \<in> set new" for q
  proof -
    have "isShot q" using r(4) qn by blast
    then show ?thesis using shot unfolding isShot_def by blast
  qed
  then have "filter P new = []" by (simp add: filter_empty_conv)
  then show ?thesis using a r(1) by simp
qed

lemma collisions_count:
  assumes kind: "\<And>e e'. type e' = type e \<Longrightarrow> subtype e' = subtype e \<Longrightarrow> P e' = P e"
    and spark: "\<And>q. type q = Particle \<Longrightarrow> subtype q = None \<Longrightarrow> \<not> P q"
  shows "length (filter P (entities (collisions rnd g))) = length (filter P (entities g))"
proof -
  have "listStep (entities g) (entities (collisions rnd g))"
    using collStep_collisions [of g rnd] by (simp add: collStep_def)
  then show ?thesis using kind spark by (rule listStep_count)
qed

lemma shoot_count:
  assumes "\<And>q. type q = Bullet \<Longrightarrow> subtype q = None \<Longrightarrow> \<not> P q"
  shows "length (filter P (entities (shoot rnd g))) = length (filter P (entities g))"
proof -
  obtain bs where b: "entities (shoot rnd g) = entities g @ bs" "\<forall>b\<in>set bs. isBullet b"
    using shoot_entities by blast
  have "\<not> P q" if qn: "q \<in> set bs" for q
  proof -
    have "isBullet q" using b(2) qn by blast
    then show ?thesis using assms unfolding isBullet_def by blast
  qed
  then have "filter P bs = []" by (simp add: filter_empty_conv)
  then show ?thesis using b(1) by simp
qed

lemma spawnBoss_entities:
  "\<exists>b. entities (spawnBoss g) = entities g @ [b] \<and> type b = Enemy \<and> subtype b = Some Boss \<and>
       0 < hp b \<and> \<not> markedForDeletion b"
  by (simp add: spawnBoss_def)

lemma spawnEnemy_active: "bossActive g \<Longrightarrow> spawnEnemy rnd g = g"
  by (simp add: spawnEnemy_def)

lemma spawnEnemy_entities:
  "\<not> bossActive g \<Longrightarrow>
   \<exists>e. entities (spawnEnemy rnd g) = entities g @ [e] \<and> type e = Enemy \<and> subtype e \<noteq> Some Boss \<and>
       0 < hp e \<and> \<not> markedForDeletion e"
  by (simp add: spawnEnemy_def Let_def)

lemma spawnPowerup_entities:
  "\<exists>q. entities (spawnPowerup rnd g) = entities g @ [q] \<and> type q = Powerup \<and> subtype q = None \<and>
       0 < hp q \<and> \<not> markedForDeletion q"
  by (simp add: spawnPowerup_def Let_def)

lemma isBoss_fun: "isBoss = (\<lambda>e. subtype e = Some Boss)"
  by (simp add: isBoss_def fun_eq_iff)

lemma bossTrigger_isBoss:
  "bossTrigger g \<longleftrightarrow> \<not> bossActive g \<and> score g > BOSS_SPAWN_SCORE \<and> length (filter isBoss (entities g)) = 0"
  by (simp add: bossTrigger_def isBoss_fun)

text \<open>The three steps of the spawner, one at a time.\<close>

lemma spawn_step_boss:
  "let g1 = (if bossTrigger g then spawnBoss g else g) in
   bossActive g1 = (bossActive g \<or> bossTrigger g) \<and> frameCount g1 = frameCount g \<and>
   (\<exists>sp. entities g1 = entities g @ sp \<and> (\<forall>e\<in>set sp. 0 < hp e \<and> \<not> markedForDeletion e) \<and>
      length (filter isBoss sp) = (if bossTrigger g then 1 else 0) \<and>
      filter isOrdinaryEnemy sp = [] \<and> filter isPowerup sp = [])"
proof (cases "bossTrigger g")
  case True
  obtain b where "entities (spawnBoss g) = entities g @ [b]" "type b = Enemy"
    "subtype b = Some Boss" "0 < hp b" "\<not> markedForDeletion b"
    using spawnBoss_entities by blast
  then show ?thesis using True
    by (simp add: isBoss_def isOrdinaryEnemy_def isPowerup_def spawnBoss_def)
next
  case False
  then show ?thesis by simp
qed

lemma spawn_step_enemy:
  "let g2 = (if frameCount g mod 120 = 0 then spawnEnemy rnd g else g) in
   bossActive g2 = bossActive g \<and> frameCount g2 = frameCount g \<and>
   (\<exists>sp. entities g2 = entities g @ sp \<and> (\<forall>e\<in>set sp. 0 < hp e \<and> \<not> markedForDeletion e) \<and>
      filter isBoss sp = [] \<and>
      length (filter isOrdinaryEnemy sp) = (if frameCount g mod 120 = 0 \<and> \<not> bossActive g then 1 else 0) \<and>
      filter isPowerup sp = [])"
proof (cases "frameCount g mod 120 = 0 \<and> \<not> bossActive g")
  case True
  obtain e where "entities (spawnEnemy rnd g) = entities g @ [e]" "type e = Enemy"
    "subtype e \<noteq> Some Boss" "0 < hp e" "\<not> markedForDeletion e"
    using spawnEnemy_entities True by blast
  then show ?thesis using True
    by (simp add: isBoss_def isOrdinaryEnemy_def isPowerup_def spawnEnemy_fields)
next
  case False
  then have "(if frameCount g mod 120 = 0 then spawnEnemy rnd g else g) = g"
    using spawnEnemy_active by auto
  then show ?thesis using False by auto
qed

lemma spawn_step_powerup:
  "let g3 = (if frameCount g mod 900 = 0 \<and> \<not> bossActive g then spawnPowerup rnd g else g) in
   bossActive g3 = bossActive g \<and> frameCount g3 = frameCount g \<and>
   (\<exists>sp. entities g3 = entities g @ sp \<and> (\<forall>e\<in>set sp. 0 < hp e \<and> \<not> markedForDeletion e) \<and>
      filter isBoss sp = [] \<and> filter isOrdinaryEnemy sp = [] \<and>
      length (filter isPowerup sp) = (if frameCount g mod 900 = 0 \<and> \<not> bossActive g then 1 else 0))"
proof (cases "frameCount g mod 900 = 0 \<and> \<not> bossActive g")
  case True
  obtain q where "entities (spawnPowerup rnd g) = entities g @ [q]" "type q = Powerup"
    "subtype q = None" "0 < hp q" "\<not> markedForDeletion q"
    using spawnPowerup_entities by blast
  then show ?thesis using True
    by (simp add: isBoss_def isOrdinaryEnemy_def isPowerup_def spawnPowerup_fields)
next
  case False
  then show ?thesis by auto
qed

lemma spawning_entities:
  "\<exists>sp. entities (spawning rnd g) = entities g @ sp \<and>
     (\<forall>e\<in>set sp. 0 < hp e \<and> \<not> markedForDeletion e) \<and>
     length (filter isBoss sp) = (if bossTrigger g then 1 else 0) \<and>
     length (filter isOrdinaryEnemy sp) =
       (if frameCount g mod 120 = 0 \<and> \<not> (bossActive g \<or> bossTrigger g) then 1 else 0) \<and>
     length (filter isPowerup sp) =
       (if frameCount g mod 900 = 0 \<and> \<not> (bossActive g \<or> bossTrigger g) then 1 else 0)"
proof -
  define g1 where "g1 = (if bossTrigger g then spawnBoss g else g)"
  define g2 where "g2 = (if frameCount g1 mod 120 = 0 then spawnEnemy rnd g1 else g1)"
  define g3 where "g3 = (if frameCount g2 mod 900 = 0 \<and> \<not> bossActive g2 then spawnPowerup rnd g2 else g2)"
  have res: "spawning rnd g = g3" by (simp add: spawning_def g1_def g2_def g3_def Let_def)
  obtain s1 where 1: "bossActive g1 = (bossActive g \<or> bossTrigger g)" "frameCount g1 = frameCount g"
    "entities g1 = entities g @ s1" "\<forall>e\<in>set s1. 0 < hp e \<and> \<not> markedForDeletion e"
    "length (filter isBoss s1) = (if bossTrigger g then 1 else 0)"
    "filter isOrdinaryEnemy s1 = []" "filter isPowerup s1 = []"
    using spawn_step_boss [of g] unfolding g1_def Let_def by blast
  obtain s2 where 2: "bossActive g2 = bossActive g1" "frameCount g2 = frameCount g1"
    "entities g2 = entities g1 @ s2" "\<forall>e\<in>set s2. 0 < hp e \<and> \<not> markedForDeletion e"
    "filter isBoss s2 = []"
    "length (filter isOrdinaryEnemy s2) = (if frameCount g1 mod 120 = 0 \<and> \<not> bossActive g1 then 1 else 0)"
    "filter isPowerup s2 = []"
    using spawn_step_enemy [of g1 rnd] unfolding g2_def Let_def by blast
  obtain s3 where 3: "bossActive g3 = bossActive g2" "frameCount g3 = frameCount g2"
    "entities g3 = entities g2 @ s3" "\<forall>e\<in>set s3. 0 < hp e \<and> \<not> markedForDeletion e"
    "filter isBoss s3 = []" "filter isOrdinaryEnemy s3 = []"
    "length (filter isPowerup s3) = (if frameCount g2 mod 900 = 0 \<and> \<not> bossActive g2 then 1 else 0)"
    using spawn_step_powerup [of g2 rnd] unfolding g3_def Let_def by blast
  have e: "entities g3 = entities g @ (s1 @ s2 @ s3)" using 1(3) 2(3) 3(3) by simp
  have a: "\<forall>e\<in>set (s1 @ s2 @ s3). 0 < hp e \<and> \<not> markedForDeletion e"
    using 1(4) 2(4) 3(4) by auto
  have b: "length (filter isBoss (s1 @ s2 @ s3)) = (if bossTrigger g then 1 else 0)"
    using 1(5) 2(5) 3(5) by simp
  have c: "length (filter isOrdinaryEnemy (s1 @ s2 @ s3)) =
       (if frameCount g mod 120 = 0 \<and> \<not> (bossActive g \<or> bossTrigger g) then 1 else 0)"
    using 1(6) 2(6) 3(6) 1(1,2) by simp
  have d: "length (filter isPowerup (s1 @ s2 @ s3)) =
       (if frameCount g mod 900 = 0 \<and> \<not> (bossActive g \<or> bossTrigger g) then 1 else 0)"
    using 1(7) 2(7) 3(7) 1(1,2) 2(1,2) by simp
  show ?thesis unfolding res using e a b c d by blast
qed

lemma sound_append: "sound (xs @ ys) \<longleftrightarrow> sound xs \<and> sound ys"
  unfolding sound_def by auto

lemma sound_nth: "sound es \<longleftrightarrow> (\<forall>k<length es. 0 < hp (es ! k) \<or> markedForDeletion (es ! k))"
  unfolding sound_def all_set_conv_all_nth by blast

lemma sound_shoot: "sound (entities g) \<Longrightarrow> sound (entities (shoot rnd g))"
proof -
  assume s: "sound (entities g)"
  obtain bs where b: "entities (shoot rnd g) = entities g @ bs" "\<forall>b\<in>set bs. isBullet b"
    using shoot_entities by blast
  have "sound bs" using b(2) unfolding sound_def isBullet_def by simp
  then show ?thesis using s b(1) by (simp add: sound_append)
qed

lemma sound_spawning: "sound (entities g) \<Longrightarrow> sound (entities (spawning rnd g))"
proof -
  assume s: "sound (entities g)"
  obtain sp where b: "entities (spawning rnd g) = entities g @ sp"
    "\<forall>e\<in>set sp. 0 < hp e \<and> \<not> markedForDeletion e"
    using spawning_entities by blast
  have "sound sp" using b(2) unfolding sound_def by simp
  then show ?thesis using s b(1) by (simp add: sound_append)
qed

lemma sound_entityUpdateLoop: "sound (entities g) \<Longrightarrow> sound (entities (entityUpdateLoop rnd g))"
proof -
  assume s: "sound (entities g)"
  obtain es' new where r: "entities (entityUpdateLoop rnd g) = es' @ new"
    "length es' = length (entities g)"
    "\<forall>k<length (entities g). sameStatic (entities g ! k) (es' ! k)" "\<forall>q\<in>set new. isShot q"
    using entityUpdateLoop_entities by blast
  have "sound new" using r(4) unfolding sound_def isShot_def by simp
  moreover have "sound es'"
    unfolding sound_nth
  proof (intro allI impI)
    fix k assume k: "k < length es'"
    then have "sameStatic (entities g ! k) (es' ! k)" using r(2,3) by simp
    moreover have "0 < hp (entities g ! k) \<or> markedForDeletion (entities g ! k)"
      using s k r(2) unfolding sound_nth by simp
    ultimately show "0 < hp (es' ! k) \<or> markedForDeletion (es' ! k)"
      unfolding sameStatic_def by auto
  qed
  ultimately show ?thesis using r(1) by (simp add: sound_append)
qed

lemma sound_listStep:
  assumes "sound es" "listStep es es'"
  shows "sound es'"
  unfolding sound_nth
proof (intro allI impI)
  fix k assume k: "k < length es'"
  show "0 < hp (es' ! k) \<or> markedForDeletion (es' ! k)"
  proof (cases "k < length es")
    case True
    then have "entStep (es ! k) (es' ! k)" using assms(2) unfolding listStep_def by blast
    moreover have "0 < hp (es ! k) \<or> markedForDeletion (es ! k)"
      using assms(1) True unfolding sound_nth by blast
    ultimately show ?thesis unfolding entStep_def by auto
  next
    case False
    then have "length es \<le> k \<and> k < length es'" using k by simp
    then have "isSpark (es' ! k)" using assms(2) unfolding listStep_def by blast
    then show ?thesis unfolding isSpark_def by blast
  qed
qed

lemma sound_collisions: "sound (entities g) \<Longrightarrow> sound (entities (collisions rnd g))"
  using collStep_collisions [of g rnd] sound_listStep unfolding collStep_def by blast

lemma sound_simulate: "sound (entities g) \<Longrightarrow> sound (entities (simulate rnd g))"
proof -
  assume "sound (entities g)"
  then have "sound (entities (playerPhysics (g\<lparr>frameCount := frameCount g + 1\<rparr>)))"
    by (simp add: playerPhysics_fields)
  then show ?thesis unfolding simulate_def
    by (intro sound_collisions sound_entityUpdateLoop sound_spawning sound_shoot)
qed

lemma kind_isBoss: "type e' = type e \<Longrightarrow> subtype e' = subtype e \<Longrightarrow> isBoss e' = isBoss e"
  by (simp add: isBoss_def)

lemma kind_isOrdinaryEnemy:
  "type e' = type e \<Longrightarrow> subtype e' = subtype e \<Longrightarrow> isOrdinaryEnemy e' = isOrdinaryEnemy e"
  by (simp add: isOrdinaryEnemy_def)

lemma kind_isPowerup: "type e' = type e \<Longrightarrow> subtype e' = subtype e \<Longrightarrow> isPowerup e' = isPowerup e"
  by (simp add: isPowerup_def)

lemma before_spawning_fields:
  "bossActive (shoot rnd (playerPhysics (g\<lparr>frameCount := frameCount g + 1\<rparr>))) = bossActive g"
  "score (shoot rnd (playerPhysics (g\<lparr>frameCount := frameCount g + 1\<rparr>))) = score g"
  "frameCount (shoot rnd (playerPhysics (g\<lparr>frameCount := frameCount g + 1\<rparr>))) = frameCount g + 1"
  by (simp_all add: shoot_fields playerPhysics_fields)

lemma simulate_count:
  assumes kind: "\<And>e e'. type e' = type e \<Longrightarrow> subtype e' = subtype e \<Longrightarrow> P e' = P e"
    and none: "\<And>q. subtype q = None \<Longrightarrow> type q \<noteq> Enemy \<Longrightarrow> type q \<noteq> Powerup \<Longrightarrow> \<not> P q"
  shows "\<exists>sp. length (filter P (entities (simulate rnd g))) =
           length (filter P (entities g)) + length (filter P sp) \<and>
         entities (spawning rnd (shoot rnd (playerPhysics (g\<lparr>frameCount := frameCount g + 1\<rparr>)))) =
           entities (shoot rnd (playerPhysics (g\<lparr>frameCount := frameCount g + 1\<rparr>))) @ sp"
proof -
  let ?g2 = "shoot rnd (playerPhysics (g\<lparr>frameCount := frameCount g + 1\<rparr>))"
  let ?g3 = "spawning rnd ?g2"
  let ?g4 = "entityUpdateLoop rnd ?g3"
  obtain sp where sp: "entities ?g3 = entities ?g2 @ sp"
    using spawning_entities by blast
  have c2: "length (filter P (entities ?g2)) = length (filter P (entities g))"
  proof -
    have "length (filter P (entities ?g2)) =
        length (filter P (entities (playerPhysics (g\<lparr>frameCount := frameCount g + 1\<rparr>))))"
      by (rule shoot_count) (use none in simp)
    then show ?thesis by (simp add: playerPhysics_fields)
  qed
  have c4: "length (filter P (entities ?g4)) = length (filter P (entities ?g3))"
    by (rule entityUpdateLoop_count [OF kind]) (use none in simp_all)
  have c5: "length (filter P (entities (collisions rnd ?g4))) = length (filter P (entities ?g4))"
    by (rule collisions_count [OF kind]) (use none in simp_all)
  have "length (filter P (entities (simulate rnd g))) = length (filter P (entities g)) + length (filter P sp)"
    unfolding simulate_def using c2 c4 c5 sp by simp
  then show ?thesis using sp by blast
qed

lemma bossTrigger_before_spawning:
  "bossTrigger (shoot rnd (playerPhysics (g\<lparr>frameCount := frameCount g + 1\<rparr>))) = bossTrigger g"
proof -
  let ?g2 = "shoot rnd (playerPhysics (g\<lparr>frameCount := frameCount g + 1\<rparr>))"
  have "length (filter isBoss (entities ?g2)) =
        length (filter isBoss (entities (playerPhysics (g\<lparr>frameCount := frameCount g + 1\<rparr>))))"
    by (rule shoot_count) (simp add: isBoss_def)
  then have "length (filter isBoss (entities ?g2)) = length (filter isBoss (entities g))"
    by (simp add: playerPhysics_fields)
  then show ?thesis unfolding bossTrigger_isBoss by (simp add: before_spawning_fields)
qed

lemma simulate_counts:
  "length (filter isBoss (entities (simulate rnd g))) =
     length (filter isBoss (entities g)) + (if bossTrigger g then 1 else 0)"
  "length (filter isOrdinaryEnemy (entities (simulate rnd g))) =
     length (filter isOrdinaryEnemy (entities g)) +
     (if (frameCount g + 1) mod 120 = 0 \<and> \<not> (bossActive g \<or> bossTrigger g) then 1 else 0)"
  "length (filter isPowerup (entities (simulate rnd g))) =
     length (filter isPowerup (entities g)) +
     (if (frameCount g + 1) mod 900 = 0 \<and> \<not> (bossActive g \<or> bossTrigger g) then 1 else 0)"
proof -
  let ?g2 = "shoot rnd (playerPhysics (g\<lparr>frameCount := frameCount g + 1\<rparr>))"
  obtain sp where sp: "entities (spawning rnd ?g2) = entities ?g2 @ sp"
     "length (filter isBoss sp) = (if bossTrigger ?g2 then 1 else 0)"
     "length (filter isOrdinaryEnemy sp) =
       (if frameCount ?g2 mod 120 = 0 \<and> \<not> (bossActive ?g2 \<or> bossTrigger ?g2) then 1 else 0)"
     "length (filter isPowerup sp) =
       (if frameCount ?g2 mod 900 = 0 \<and> \<not> (bossActive ?g2 \<or> bossTrigger ?g2) then 1 else 0)"
    using spawning_entities [of rnd ?g2] by blast
  have same: "sp' = sp" if "entities (spawning rnd ?g2) = entities ?g2 @ sp'" for sp'
    using that sp(1) by simp
  obtain s1 where 1: "length (filter isBoss (entities (simulate rnd g))) =
           length (filter isBoss (entities g)) + length (filter isBoss s1)"
       "entities (spawning rnd ?g2) = entities ?g2 @ s1"
    using simulate_count [of isBoss rnd g] kind_isBoss by (auto simp: isBoss_def)
  show "length (filter isBoss (entities (simulate rnd g))) =
     length (filter isBoss (entities g)) + (if bossTrigger g then 1 else 0)"
    using 1 same sp(2) bossTrigger_before_spawning by simp
  obtain s2 where 2: "length (filter isOrdinaryEnemy (entities (simulate rnd g))) =
           length (filter isOrdinaryEnemy (entities g)) + length (filter isOrdinaryEnemy s2)"
       "entities (spawning rnd ?g2) = entities ?g2 @ s2"
    using simulate_count [of isOrdinaryEnemy rnd g] kind_isOrdinaryEnemy
    by (auto simp: isOrdinaryEnemy_def)
  show "length (filter isOrdinaryEnemy (entities (simulate rnd g))) =
     length (filter isOrdinaryEnemy (entities g)) +
     (if (frameCount g + 1) mod 120 = 0 \<and> \<not> (bossActive g \<or> bossTrigger g) then 1 else 0)"
    using 2 same sp(3) bossTrigger_before_spawning by (simp add: before_spawning_fields)
  obtain s3 where 3: "length (filter isPowerup (entities (simulate rnd g))) =
           length (filter isPowerup (entities g)) + length (filter isPowerup s3)"
       "entities (spawning rnd ?g2) = entities ?g2 @ s3"
    using simulate_count [of isPowerup rnd g] kind_isPowerup by (auto simp: isPowerup_def)
  show "length (filter isPowerup (entities (simulate rnd g))) =
     length (filter isPowerup (entities g)) +
     (if (frameCount g + 1) mod 900 = 0 \<and> \<not> (bossActive g \<or> bossTrigger g) then 1 else 0)"
    using 3 same sp(4) bossTrigger_before_spawning by (simp add: before_spawning_fields)
qed

section \<open>Traces of the example states\<close>

lemma filter_filter_length: "length (filter P (filter Q xs)) \<le> length (filter P xs)"
  by (induction xs) simp_all

lemma contact_trace:
  "(let g = tick rnd0 contactState; p = player g
    in hp p = - 10 \<and> \<not> markedForDeletion p \<and> isGrounded p = Some True \<and>
       y (vel p) = - 5 \<and> x (vel p) = - 10 \<and> y (pos p) + height (size_e p) = 560 \<and>
       map hp (entities g) = [3, 3, 1, 1])"
  by (simp add: model_defs scene_defs Let_def cong: let_weak_cong)

lemma boss_trace:
  "(let g1 = tick rnd0 bossFight; g2 = tick rnd0 g1
    in \<not> bossActive g1 \<and> score g1 = 6600 \<and> frameCount g1 = 3599 \<and>
       filter isBoss (entities g1) = [] \<and>
       bossActive g2 \<and> frameCount g2 = 3600 \<and>
       map hp (filter isBoss (entities g2)) = [150] \<and>
       filter isOrdinaryEnemy (entities g2) = [] \<and> filter isPowerup (entities g2) = [])"
  using sin_bounds [of "3599 / 50"]
  by (simp add: model_defs scene_defs isBoss_def isOrdinaryEnemy_def isPowerup_def Let_def
      funpow_50 funpow_10 del: sin_le_one sin_ge_minus_one cong: let_weak_cong)

lemma two_targets_trace:
  "(let g = tick rnd0 twoTargets
    in map hp (entities g) = [2, 2, 1, 1] \<and> map type (entities g) = [Enemy, Enemy, Particle, Particle])"
  by (simp add: model_defs scene_defs Let_def cong: let_weak_cong)

section \<open>The boss phase through a tick\<close>

lemma bossPhase_landOn: "bossPhase (landOn pl e) = bossPhase e"
  by (simp add: landOn_def)

lemma bossPhase_resolvePlatforms: "bossPhase (resolvePlatforms ps e) = bossPhase e"
  unfolding resolvePlatforms_def
  by (induction ps arbitrary: e) (simp_all add: bossPhase_landOn)

lemma bossPhase_settleEnemy: "bossPhase (settleEnemy cv ps e) = bossPhase e"
  by (simp add: settleEnemy_def Let_def markDeleted_def bossPhase_resolvePlatforms)

lemma bossPhase_updateDrone: "bossPhase (fst (updateDrone rnd fc p e rc)) = bossPhase e"
  by (simp add: updateDrone_def Let_def addVelX_def)

lemma bossPhase_updateJumper: "bossPhase (fst (updateJumper rnd p e rc)) = bossPhase e"
  by (simp add: updateJumper_def Let_def addVelX_def)

lemma bossPhase_moveEnemy:
  "bossPhase (fst (moveEnemy rnd cv fc p e rc)) =
     (if subtype e = Some Boss then bossPhase (fst (updateBoss cv fc p e)) else bossPhase e)"
proof (cases "subtype e = Some Boss")
  case True
  have "subtype (fst (updateBoss cv fc p e)) = Some Boss"
    using sameStatic_updateBoss [of e cv fc p] True by (simp add: sameStatic_def)
  then show ?thesis using True by (simp add: moveEnemy_def Let_def split_beta)
next
  case False
  have d: "bossPhase (addVelY (addVelX a)) = bossPhase a" for a
    by (simp add: addVelX_def addVelY_def)
  have x: "bossPhase (addVelX a) = bossPhase a" for a
    by (simp add: addVelX_def)
  show ?thesis using False
    by (simp add: moveEnemy_def Let_def split_beta d x bossPhase_updateDrone bossPhase_updateJumper)
qed

lemma bossPhase_updateEnemy:
  "bossPhase (fst (updateEnemy rnd cv fc ps p e rc)) =
     (if subtype e = Some Boss then bossPhase (fst (updateBoss cv fc p e)) else bossPhase e)"
  by (simp add: updateEnemy_def split_beta bossPhase_settleEnemy bossPhase_moveEnemy)

lemma bossPhase_applyGravity: "bossPhase (applyGravity e) = bossPhase e"
  by (simp add: applyGravity_def)

lemma applyGravity_boss: "subtype e = Some Boss \<Longrightarrow> applyGravity e = e"
  by (simp add: applyGravity_def)

lemma bossPhase_updateEntity:
  "bossPhase (fst (updateEntity rnd cv fc ps p e rc)) =
     (if \<not> markedForDeletion e \<and> type e = Enemy \<and> subtype e = Some Boss
      then bossPhase (fst (updateBoss cv fc p e)) else bossPhase e)"
proof (cases "markedForDeletion e")
  case True
  then show ?thesis by (simp add: updateEntity_def)
next
  case False
  have g: "type (applyGravity e) = type e" "subtype (applyGravity e) = subtype e"
    by (simp_all add: applyGravity_def)
  show ?thesis
  proof (cases "type e = Enemy")
    case True
    show ?thesis
    proof (cases "subtype e = Some Boss")
      case b: True
      show ?thesis using False True b
        by (simp add: updateEntity_def Let_def applyGravity_boss bossPhase_updateEnemy)
    next
      case nb: False
      show ?thesis using False True nb g
        by (simp add: updateEntity_def Let_def bossPhase_updateEnemy bossPhase_applyGravity)
    qed
  next
    case ne: False
    show ?thesis using False ne g
      by (simp add: updateEntity_def Let_def bossPhase_applyGravity updatePowerup_def
          updateProjectile_def updateParticle_def addVelX_def addVelY_def markDeleted_def
          split: option.split)
  qed
qed

lemma bossPhase_updateBoss:
  "bossPhase (fst (updateBoss cv fc p e)) =
     (if bossPhase e = Some 0
      then (if max (width cv - width (size_e e) - 50) (x (pos e) + x (vel e))
                 \<le> width cv - width (size_e e) - 50 then Some 1 else Some 0)
      else if bossPhase e = Some 1 \<and> real_of_int (hp e) < real_of_int (maxHp e) / 2
        then Some 2 else bossPhase e)"
  by (simp add: updateBoss_def Let_def)

lemma simulate_nth:
  assumes i: "i < length (entities g)"
  shows "\<exists>rc'. core (entities (simulate rnd g) ! i) =
     core (fst (updateEntity rnd (canvas g) (frameCount g + 1) (platforms g)
             (player (playerPhysics (g\<lparr>frameCount := frameCount g + 1\<rparr>))) (entities g ! i) rc'))"
proof -
  let ?g1 = "playerPhysics (g\<lparr>frameCount := frameCount g + 1\<rparr>)"
  let ?g2 = "shoot rnd ?g1"
  let ?g3 = "spawning rnd ?g2"
  let ?g4 = "entityUpdateLoop rnd ?g3"
  obtain bs where bs: "entities ?g2 = entities ?g1 @ bs" using shoot_entities by blast
  obtain sp where sp: "entities ?g3 = entities ?g2 @ sp" using spawning_entities by blast
  have e3: "entities ?g3 = entities g @ (bs @ sp)"
    using bs sp by (simp add: playerPhysics_fields)
  then have i3: "i < length (entities ?g3)" and n3: "entities ?g3 ! i = entities g ! i"
    using i by (simp_all add: nth_append)
  have f3: "canvas ?g3 = canvas g" "frameCount ?g3 = frameCount g + 1" "platforms ?g3 = platforms g"
    "player ?g3 = player ?g1"
    by (simp_all add: spawning_fields shoot_fields playerPhysics_fields)
  let ?r = "updateEntities rnd (canvas ?g3) (frameCount ?g3) (platforms ?g3) (player ?g3)
              (entities ?g3) (randomCalls ?g3)"
  have e4: "entities ?g4 = fst ?r @ fst (snd ?r)"
    by (simp add: entityUpdateLoop_def split_beta)
  have l4: "length (fst ?r) = length (entities ?g3)" by (rule updateEntities_length)
  obtain rc' where rc: "fst ?r ! i =
      fst (updateEntity rnd (canvas ?g3) (frameCount ?g3) (platforms ?g3) (player ?g3) (entities ?g3 ! i) rc')"
    using updateEntities_nth [OF i3] by blast
  have n4: "entities ?g4 ! i =
      fst (updateEntity rnd (canvas g) (frameCount g + 1) (platforms g) (player ?g1) (entities g ! i) rc')"
    using e4 l4 i3 rc n3 f3 by (simp add: nth_append)
  have i4: "i < length (entities ?g4)" using e4 l4 i3 by simp
  have "listStep (entities ?g4) (entities (collisions rnd ?g4))"
    using collStep_collisions [of ?g4 rnd] by (simp add: collStep_def)
  then have "entStep (entities ?g4 ! i) (entities (collisions rnd ?g4) ! i)"
    using i4 unfolding listStep_def by blast
  then have "core (entities (collisions rnd ?g4) ! i) = core (entities ?g4 ! i)"
    by (simp add: entStep_def)
  then have "core (entities (simulate rnd g) ! i) =
     core (fst (updateEntity rnd (canvas g) (frameCount g + 1) (platforms g) (player ?g1) (entities g ! i) rc'))"
    using n4 by (simp add: simulate_def)
  then show ?thesis by blast
qed

lemma core_eq_bossPhase: "core a = core b \<Longrightarrow> bossPhase a = bossPhase b"
  using core_sel(6) by metis

lemma simulate_bossPhase:
  assumes i: "i < length (entities g)"
  shows "bossPhase (entities (simulate rnd g) ! i) =
     (if \<not> markedForDeletion (entities g ! i) \<and> type (entities g ! i) = Enemy \<and>
         subtype (entities g ! i) = Some Boss
      then bossPhase (fst (updateBoss (canvas g) (frameCount g + 1)
             (player (playerPhysics (g\<lparr>frameCount := frameCount g + 1\<rparr>))) (entities g ! i)))
      else bossPhase (entities g ! i))"
proof -
  obtain rc' where "core (entities (simulate rnd g) ! i) =
     core (fst (updateEntity rnd (canvas g) (frameCount g + 1) (platforms g)
             (player (playerPhysics (g\<lparr>frameCount := frameCount g + 1\<rparr>))) (entities g ! i) rc'))"
    using simulate_nth [OF i] by blast
  then have "bossPhase (entities (simulate rnd g) ! i) =
     bossPhase (fst (updateEntity rnd (canvas g) (frameCount g + 1) (platforms g)
             (player (playerPhysics (g\<lparr>frameCount := frameCount g + 1\<rparr>))) (entities g ! i) rc'))"
    by (rule core_eq_bossPhase)
  then show ?thesis by (simp only: bossPhase_updateEntity)
qed

section \<open>Landing and contact damage\<close>

lemma landing_isGrounded: "landing (e\<lparr>isGrounded := b\<rparr>) pl = landing e pl"
  by (simp add: landing_def)

lemma landing_markDeleted: "landedOn ps e \<Longrightarrow> landedOn ps (markDeleted e)"
  by (simp add: landedOn_def markDeleted_def)

lemma landOn_landed:
  assumes "pl \<in> set S" "landing e pl"
  shows "landedOn S (landOn pl e)"
proof -
  have "landOn pl e = e\<lparr>isGrounded := Some True, vel := (vel e)\<lparr>y := 0\<rparr>,
             pos := (pos e)\<lparr>y := y (pos pl) - height (size_e e)\<rparr>\<rparr>"
    using assms(2) by (simp add: landOn_def)
  then have "isGrounded (landOn pl e) = Some True" "y (vel (landOn pl e)) = 0"
    "y (pos (landOn pl e)) + height (size_e (landOn pl e)) = y (pos pl)"
    by simp_all
  then show ?thesis unfolding landedOn_def using assms(1) by blast
qed

lemma fold_landOn_landed:
  assumes "set ps \<subseteq> set S"
    and "landedOn S e \<or> (\<exists>pl\<in>set ps. landing e pl)"
  shows "landedOn S (fold landOn ps e)"
  using assms
proof (induction ps arbitrary: e)
  case Nil
  then show ?case by simp
next
  case (Cons pl ps)
  have sub: "set ps \<subseteq> set S" and plS: "pl \<in> set S" using Cons.prems(1) by simp_all
  have "landedOn S (landOn pl e) \<or> (\<exists>q\<in>set ps. landing (landOn pl e) q)"
  proof (cases "landing e pl")
    case True
    show ?thesis using landOn_landed [of pl S e] True plS by blast
  next
    case False
    then have same: "landOn pl e = e" by (simp add: landOn_def)
    show ?thesis using Cons.prems(2) False unfolding same by auto
  qed
  then have "landedOn S (fold landOn ps (landOn pl e))" using Cons.IH [OF sub] by blast
  then show ?case by simp
qed

lemma resolvePlatforms_landed:
  "\<exists>pl\<in>set ps. landing e pl \<Longrightarrow> landedOn ps (resolvePlatforms ps e)"
  unfolding resolvePlatforms_def using fold_landOn_landed [of ps ps e] by blast

lemma pcore_sel:
  "pos (pcore p) = pos p" "size_e (pcore p) = size_e p" "isGrounded (pcore p) = isGrounded p"
  by (simp_all add: pcore_def)

lemma pcore_eq_fields:
  "pcore a = pcore b \<Longrightarrow> pos a = pos b \<and> size_e a = size_e b \<and> isGrounded a = isGrounded b"
  using pcore_sel by metis

lemma core_eq_fields:
  "core a = core b \<Longrightarrow>
   pos a = pos b \<and> vel a = vel b \<and> size_e a = size_e b \<and> isGrounded a = isGrounded b"
  using core_sel(3,4,5,7) by metis

lemma player_before_collisions:
  "player (entityUpdateLoop rnd (spawning rnd (shoot rnd (playerPhysics h)))) =
   player (playerPhysics h)"
  by (simp add: entityUpdateLoop_fields spawning_fields shoot_fields)

lemma player_landed_after_tick:
  assumes "\<exists>pl\<in>set (platforms g).
             landing (boundsPlayer (canvas g) (integratePlayer (input g) (player g))) pl"
  shows "isGrounded (player (tick rnd g)) = Some True \<and>
         (\<exists>pl\<in>set (platforms g).
             y (pos (player (tick rnd g))) + height (size_e (player (tick rnd g))) = y (pos pl)) \<and>
         (if hp (player (tick rnd g)) =
               hp (boundsPlayer (canvas g) (integratePlayer (input g) (player g)))
          then y (vel (player (tick rnd g))) = 0 else y (vel (player (tick rnd g))) = - 5)"
proof -
  let ?pm = "boundsPlayer (canvas g) (integratePlayer (input g) (player g))"
  let ?g0 = "g\<lparr>frameCount := frameCount g + 1\<rparr>"
  let ?p1 = "resolvePlatforms (platforms g) (?pm\<lparr>isGrounded := Some False\<rparr>)"
  let ?g4 = "entityUpdateLoop rnd (spawning rnd (shoot rnd (playerPhysics ?g0)))"
  have p1: "player (playerPhysics ?g0) = ?p1" by (simp add: playerPhysics_def Let_def)
  have "\<exists>pl\<in>set (platforms g). landing (?pm\<lparr>isGrounded := Some False\<rparr>) pl"
    using assms by (simp add: landing_isGrounded)
  then have l1: "landedOn (platforms g) ?p1" by (rule resolvePlatforms_landed)
  have "sameStatic (?pm\<lparr>isGrounded := Some False\<rparr>) ?p1" by (rule sameStatic_resolvePlatforms)
  then have hp1: "hp ?p1 = hp ?pm" by (simp add: sameStatic_def)
  have p4: "player ?g4 = ?p1" using player_before_collisions [of rnd ?g0] p1 by simp
  have ps: "playerStep ?p1 (player (collisions rnd ?g4))"
    using collStep_collisions [of ?g4 rnd] p4 by (simp add: collStep_def)
  have t: "player (tick rnd g) = player (collisions rnd ?g4)"
    by (simp add: tick_def simulate_def cleanup_fields)
  let ?p' = "player (collisions rnd ?g4)"
  have same: "pos ?p' = pos ?p1 \<and> size_e ?p' = size_e ?p1 \<and> isGrounded ?p' = isGrounded ?p1"
    using ps pcore_eq_fields unfolding playerStep_def by blast
  have v: "(vel ?p' = vel ?p1 \<and> hp ?p' = hp ?p1) \<or> (hp ?p' < hp ?p1 \<and> y (vel ?p') = - 5)"
    using ps unfolding playerStep_def by blast
  have a: "isGrounded ?p' = Some True" using same l1 by (simp add: landedOn_def)
  have b: "\<exists>pl\<in>set (platforms g). y (pos ?p') + height (size_e ?p') = y (pos pl)"
    using same l1 by (simp add: landedOn_def)
  have c: "if hp ?p' = hp ?pm then y (vel ?p') = 0 else y (vel ?p') = - 5"
  proof (cases "hp ?p' = hp ?pm")
    case True
    then have "vel ?p' = vel ?p1" using v hp1 by auto
    then show ?thesis using True l1 by (simp add: landedOn_def)
  next
    case False
    then have "y (vel ?p') = - 5" using v hp1 by auto
    then show ?thesis using False by simp
  qed
  show ?thesis unfolding t using a b c by blast
qed

lemma enemy_landed_after_callback:
  assumes ty: "type e = Enemy" and nb: "subtype e \<noteq> Some Boss" and nd: "subtype e \<noteq> Some Drone"
    and live: "\<not> markedForDeletion e"
    and land: "\<exists>pl\<in>set ps. landing (fst (moveEnemy rnd cv fc p (applyGravity e) rc)) pl"
  shows "landedOn ps (fst (updateEntity rnd cv fc ps p e rc))"
proof -
  let ?em = "fst (moveEnemy rnd cv fc p (applyGravity e) rc)"
  have g: "type (applyGravity e) = Enemy" using ty by (simp add: applyGravity_def)
  have "sameStatic e (applyGravity e)" by (rule sameStatic_applyGravity)
  moreover have "sameStatic (applyGravity e) ?em" by (rule sameStatic_moveEnemy)
  ultimately have st: "subtype ?em = subtype e" by (simp add: sameStatic_def)
  have u: "fst (updateEntity rnd cv fc ps p e rc) = settleEnemy cv ps ?em"
    using live g by (simp add: updateEntity_def Let_def updateEnemy_def split_beta)
  have r: "landedOn ps (resolvePlatforms ps ?em)" using land by (rule resolvePlatforms_landed)
  have "landedOn ps (settleEnemy cv ps ?em)"
    unfolding settleEnemy_def Let_def using st nb nd r landing_markDeleted by simp
  then show ?thesis unfolding u .
qed

lemma collisions_keep_body:
  assumes "i < length (entities g)"
  shows "pos (entities (collisions rnd g) ! i) = pos (entities g ! i) \<and>
         vel (entities (collisions rnd g) ! i) = vel (entities g ! i) \<and>
         size_e (entities (collisions rnd g) ! i) = size_e (entities g ! i) \<and>
         isGrounded (entities (collisions rnd g) ! i) = isGrounded (entities g ! i)"
proof -
  have "listStep (entities g) (entities (collisions rnd g))"
    using collStep_collisions [of g rnd] by (simp add: collStep_def)
  then have "entStep (entities g ! i) (entities (collisions rnd g) ! i)"
    using assms unfolding listStep_def by blast
  then have "core (entities (collisions rnd g) ! i) = core (entities g ! i)"
    by (simp add: entStep_def)
  then show ?thesis by (rule core_eq_fields)
qed

lemma contact_landing:
  "landing (boundsPlayer (canvas contactState) (integratePlayer (input contactState) (player contactState)))
     (platforms contactState ! 0)"
  by (simp add: scene_defs landing_def boundsPlayer_def integratePlayer_def GRAVITY_def FRICTION_def
      Let_def cong: let_weak_cong)

lemma player_spawnParticle: "player (spawnParticle rnd a b c g) = player g"
  by (simp add: spawnParticle_def Let_def)

lemma player_modifyEntity: "player (modifyEntity i f g) = player g"
  by (simp add: modifyEntity_def)

lemma player_bossDeathParticle: "player (bossDeathParticle rnd t g) = player g"
  by (simp add: bossDeathParticle_def Let_def player_spawnParticle)

lemma player_funpow:
  fixes f :: "Game \<Rightarrow> Game"
  assumes "\<And>h. player (f h) = player h"
  shows "player ((f ^^ n) g) = player g"
proof (induction n)
  case 0
  show ?case by simp
next
  case (Suc n)
  have "player (f ((f ^^ n) g)) = player ((f ^^ n) g)" by (rule assms)
  then show ?case using Suc by simp
qed

lemma player_bulletVsTarget: "player (bulletVsTarget rnd i j g) = player g"
proof (cases "type (entities g ! j) = Enemy \<and> \<not> markedForDeletion (entities g ! j) \<and>
            isColliding (entities g ! i) (entities g ! j)")
  case False
  then show ?thesis by (auto simp: bulletVsTarget_def Let_def)
next
  case True
  define g1 where "g1 = modifyEntity j (\<lambda>t. t\<lparr>hp := hp t - 1\<rparr>) g"
  define g2 where "g2 = modifyEntity i consumePenetration g1"
  define target2 where "target2 = entities g2 ! j"
  define g3 where "g3 = spawnParticle rnd (x (pos (entities g2 ! i))) (y (pos (entities g2 ! i)))
     (color target2) g2"
  define g6 where "g6 = (bossDeathParticle rnd target2 ^^ 50) (g3\<lparr>score := score g3 + 5000, bossActive := False\<rparr>)"
  define g4 where "g4 = g3\<lparr>score := score g3 + 100\<rparr>"
  have res: "bulletVsTarget rnd i j g =
     (if hp target2 \<le> 0 then
        (if subtype target2 = Some Boss then modifyEntity j markDeleted g6
         else modifyEntity j markDeleted g4)
      else g3)"
    using True unfolding bulletVsTarget_def g1_def g2_def target2_def g3_def g6_def g4_def Let_def
    by simp
  have p3: "player g3 = player g"
    by (simp add: g3_def g2_def g1_def player_spawnParticle player_modifyEntity)
  have p4: "player g4 = player g" using p3 by (simp add: g4_def)
  have "player g6 = player (g3\<lparr>score := score g3 + 5000, bossActive := False\<rparr>)"
    unfolding g6_def by (rule player_funpow) (rule player_bossDeathParticle)
  then have p6: "player g6 = player g" using p3 by simp
  show ?thesis unfolding res using p3 p4 p6 by (simp add: player_modifyEntity)
qed

lemma player_fold_bulletVsTarget: "player (fold (bulletVsTarget rnd i) js g) = player g"
  by (induction js arbitrary: g) (simp_all add: player_bulletVsTarget)

lemma hp_playerVsPowerup: "hp (player (playerVsPowerup rnd i g)) = hp (player g)"
proof -
  have "player (((\<lambda>h. spawnParticle rnd (x (pos (player h))) (y (pos (player h))) ''#fff'' h) ^^ 10) h)
      = player h" for h
    by (rule player_funpow) (rule player_spawnParticle)
  then show ?thesis
    by (simp add: playerVsPowerup_def Let_def player_modifyEntity)
qed

lemma hp_threatVsPlayer:
  "hp (player (threatVsPlayer rnd i g)) =
     hp (player g) - (if isColliding (player g) (entities g ! i) then 10 else 0)"
proof (cases "isColliding (player g) (entities g ! i)")
  case False
  then show ?thesis by (simp add: threatVsPlayer_def Let_def)
next
  case True
  define g1 where "g1 = g\<lparr>player := (player g)\<lparr>hp := hp (player g) - 10\<rparr>\<rparr>"
  define g2 where "g2 = (if type (entities g ! i) = BossProjectile then modifyEntity i markDeleted g1 else g1)"
  define p4 where "p4 = (player g2)\<lparr>vel := (vel (player g2))\<lparr>x := (if x (pos (entities g ! i)) > x (pos (player g2)) then - 10 else 10), y := - 5\<rparr>\<rparr>"
  define g3 where "g3 = g2\<lparr>player := p4\<rparr>"
  have res: "threatVsPlayer rnd i g = spawnParticle rnd (x (pos p4)) (y (pos p4)) ''#ef4444'' g3"
    using True unfolding threatVsPlayer_def g1_def g2_def p4_def g3_def Let_def
    by (simp cong: if_cong)
  have "player g2 = (player g)\<lparr>hp := hp (player g) - 10\<rparr>"
    by (simp add: g2_def g1_def modifyEntity_def)
  then have "hp p4 = hp (player g) - 10" by (simp add: p4_def)
  then show ?thesis unfolding res using True by (simp add: player_spawnParticle g3_def)
qed

lemma hp_collideEntity:
  "hp (player (collideEntity rnd i g)) =
     hp (player g) -
     (if \<not> markedForDeletion (entities g ! i) \<and>
         (type (entities g ! i) = Enemy \<or> type (entities g ! i) = BossProjectile) \<and>
         isColliding (player g) (entities g ! i) then 10 else 0)"
proof (cases "markedForDeletion (entities g ! i)")
  case True
  then show ?thesis by (simp add: collideEntity_def)
next
  case live: False
  show ?thesis
  proof (cases "type (entities g ! i) = Powerup")
    case True
    then show ?thesis using live by (simp add: collideEntity_def hp_playerVsPowerup)
  next
    case np: False
    show ?thesis
    proof (cases "type (entities g ! i) = Bullet")
      case True
      then show ?thesis using live np by (simp add: collideEntity_def player_fold_bulletVsTarget)
    next
      case nb: False
      show ?thesis
      proof (cases "type (entities g ! i) = Enemy \<or> type (entities g ! i) = BossProjectile")
        case True
        then have "collideEntity rnd i g = threatVsPlayer rnd i g"
          using live np nb by (simp add: collideEntity_def)
        then show ?thesis using True live by (simp add: hp_threatVsPlayer)
      next
        case False
        then have "collideEntity rnd i g = g"
          using live np nb by (simp add: collideEntity_def)
        then show ?thesis using False by simp
      qed
    qed
  qed
qed

lemma collStep_prefix: "collStep g (fold (collideEntity rnd) ks g)"
  by (rule collStep_fold) (rule collStep_collideEntity)

lemma isColliding_cong:
  "pos p' = pos p \<Longrightarrow> size_e p' = size_e p \<Longrightarrow> pos e' = pos e \<Longrightarrow> size_e e' = size_e e \<Longrightarrow>
   isColliding p' e' = isColliding p e"
  by (simp add: isColliding_def)

lemma hp_prefix_step:
  assumes m: "m < length (entities g)"
  shows "hp (player (fold (collideEntity rnd) [0..<Suc m] g)) =
     hp (player (fold (collideEntity rnd) [0..<m] g)) - (if liveContact rnd g m then 10 else 0)"
proof -
  let ?h = "fold (collideEntity rnd) [0..<m] g"
  have cs: "collStep g ?h" by (rule collStep_prefix)
  then have "entStep (entities g ! m) (entities ?h ! m)"
    using m unfolding collStep_def listStep_def by blast
  then have c: "core (entities ?h ! m) = core (entities g ! m)" by (simp add: entStep_def)
  have ty: "type (entities ?h ! m) = type (entities g ! m)" using c core_eq_type by blast
  have eb: "pos (entities ?h ! m) = pos (entities g ! m) \<and> size_e (entities ?h ! m) = size_e (entities g ! m)"
    using c core_eq_fields by blast
  have "pcore (player ?h) = pcore (player g)" using cs unfolding collStep_def playerStep_def by blast
  then have pb: "pos (player ?h) = pos (player g) \<and> size_e (player ?h) = size_e (player g)"
    using pcore_eq_fields by blast
  have ic: "isColliding (player ?h) (entities ?h ! m) = isColliding (player g) (entities g ! m)"
    using eb pb unfolding isColliding_def by simp
  have "fold (collideEntity rnd) [0..<Suc m] g = collideEntity rnd m ?h" by simp
  then show ?thesis unfolding liveContact_def using hp_collideEntity [of rnd m ?h] ty ic by simp
qed

lemma hp_prefix:
  "m \<le> length (entities g) \<Longrightarrow>
   hp (player (fold (collideEntity rnd) [0..<m] g)) =
     hp (player g) - 10 * int (length (filter (liveContact rnd g) [0..<m]))"
proof (induction m)
  case 0
  show ?case by simp
next
  case (Suc m)
  then have m: "m < length (entities g)" and ih: "hp (player (fold (collideEntity rnd) [0..<m] g)) =
     hp (player g) - 10 * int (length (filter (liveContact rnd g) [0..<m]))" by simp_all
  have f: "length (filter (liveContact rnd g) [0..<Suc m]) =
      length (filter (liveContact rnd g) [0..<m]) + (if liveContact rnd g m then 1 else 0)"
    by simp
  show ?case unfolding hp_prefix_step [OF m] ih f by simp
qed

lemma survivor_was_live:
  assumes i: "i < length (entities g)"
    and alive: "\<not> markedForDeletion (entities (collisions rnd g) ! i)"
  shows "\<not> markedForDeletion (entities (fold (collideEntity rnd) [0..<i] g) ! i)"
proof -
  let ?h = "fold (collideEntity rnd) [0..<i] g"
  have "[0..<i + (length (entities g) - i)] = [0..<i] @ [i..<i + (length (entities g) - i)]"
    by (rule upt_add_eq_append) simp
  then have "[0..<length (entities g)] = [0..<i] @ [i..<length (entities g)]"
    using i by simp
  then have "collisions rnd g = fold (collideEntity rnd) [i..<length (entities g)] ?h"
    unfolding collisions_def by simp
  then have cs: "collStep ?h (collisions rnd g)" using collStep_prefix [of ?h rnd] by simp
  have "length (entities g) \<le> length (entities ?h)"
    using collStep_prefix [of g rnd "[0..<i]"] collStep_length by blast
  then have "i < length (entities ?h)" using i by linarith
  then have "entStep (entities ?h ! i) (entities (collisions rnd g) ! i)"
    using cs unfolding collStep_def listStep_def by blast
  then show ?thesis using alive unfolding entStep_def by blast
qed

lemma contact_two_ticks:
  "(let g1 = tick rnd0 contactState; g2 = tick rnd0 g1
    in hp (player g1) = - 10 \<and> hp (player g2) = - 30 \<and> map hp (entities g1) = [3, 3, 1, 1])"
  by (simp add: model_defs scene_defs Let_def cong: let_weak_cong)

lemma contact_live:
  "filter (liveContact rnd0 contactState) [0..<length (entities contactState)] = [0, 1]"
proof -
  have 0: "liveContact rnd0 contactState 0"
    by (simp add: liveContact_def scene_defs isColliding_def)
  have 1: "liveContact rnd0 contactState 1"
    by (simp add: liveContact_def model_defs scene_defs Let_def cong: let_weak_cong)
  have "[0..<length (entities contactState)] = [0, 1]" by (simp add: scene_defs)
  then show ?thesis using 0 1 by simp
qed

lemma runner_landing:
  "landing (fst (moveEnemy rnd0 \<lparr>width = 800, height = 600\<rparr> 1 (standingPlayer 10)
                  (applyGravity (runnerAt 110 528)) 0))
     (mkPlatform ''floor'' 0 560 800 40 ''#334155'')"
  by (simp add: model_defs scene_defs Let_def cong: let_weak_cong)

lemma two_targets_landing:
  "landing (boundsPlayer (canvas twoTargets) (integratePlayer (input twoTargets) (player twoTargets)))
     (platforms twoTargets ! 0)"
  by (simp add: scene_defs landing_def boundsPlayer_def integratePlayer_def GRAVITY_def FRICTION_def
      Let_def cong: let_weak_cong)

section \<open>Penetration (claim C7)\<close>




section \<open>Score (claim C10)\<close>

text \<open>
  Claim C10. Within a run the score never decreases from one tick to the next: the tick (and
  the guarded \<open>update\<close>, which does nothing unless the game is being played) returns a
  state whose score is at least the score it was given. Only the collision phase writes the
  score, and only by adding 500, 100 or 5000.
\<close>

theorem score_monotone:
  "score g \<le> score (tick rnd g) \<and> score g \<le> score (update rnd status g)"
proof -
  let ?g4 = "entityUpdateLoop rnd (spawning rnd (shoot rnd
       (playerPhysics (g\<lparr>frameCount := frameCount g + 1\<rparr>))))"
  have "score ?g4 \<le> score (collisions rnd ?g4)"
    using collStep_collisions [of ?g4 rnd] by (simp add: collStep_def)
  then have "score g \<le> score (tick rnd g)"
    by (simp add: tick_def simulate_def cleanup_fields score_before_collisions)
  then show ?thesis by (simp add: update_def)
qed

section \<open>Movement (claim C1)\<close>

text \<open>
  Claim C1 says that a tick advances every movable entity by its velocity exactly once on
  each axis. For a runner the callback of the update loop adds the horizontal velocity twice:
  once in the runner's own branch (line 377) and once more in the common step of lines
  381-384. The runner below starts at x = 500 with velocity - 2 and ends the callback at
  x = 496, while its y is advanced once (by the velocity after gravity, 0.6).
\<close>

theorem runner_x_advanced_twice:
  "(let e = runnerAt 500 100;
        e' = fst (updateEntity rnd0 \<lparr>width = 800, height = 600\<rparr> 1 [] (standingPlayer 100) e 0)
    in x (vel e') = - 2 \<and> y (vel e') = 0.6 \<and>
       x (pos e') = x (pos e) + 2 * x (vel e') \<and> x (pos e') \<noteq> x (pos e) + x (vel e') \<and>
       y (pos e') = y (pos e) + y (vel e'))"
  by (simp add: model_defs scene_defs Let_def cong: let_weak_cong)

section \<open>One bullet, several enemies (claim C3)\<close>

text \<open>
  Claim C3 says that a bullet of penetration 1 damages at most one enemy in a tick. The inner
  loop of lines 443-476 never looks at the bullet's own removal flag, so a bullet that
  overlaps two live enemies damages both before the tick ends. In \<open>twoTargets\<close> a rifle
  bullet (penetration 1) and two runners with 3 hp each overlap after the movement of the
  tick; after the tick both runners have 2 hp and the bullet is gone.
\<close>

theorem rifle_bullet_damages_two_enemies:
  "(let g = tick rnd0 twoTargets
    in map type (entities twoTargets) = [Bullet, Enemy, Enemy] \<and>
       penetration (entities twoTargets ! 0) = Some 1 \<and>
       map hp (filter (\<lambda>e. type e = Enemy) (entities twoTargets)) = [3, 3] \<and>
       map hp (filter (\<lambda>e. type e = Enemy) (entities g)) = [2, 2] \<and>
       filter (\<lambda>e. type e = Bullet) (entities g) = [])"
  by (simp add: model_defs scene_defs Let_def cong: let_weak_cong)

section \<open>Boss spawning (claim C2)\<close>

text \<open>
  The boss test of line 279 on any state: before the purge of a tick the number of bosses
  has grown by one if \<open>bossTrigger\<close> held at the spawner and not at all otherwise, and a
  state with at most one boss is followed by a state with at most one boss.
\<close>

theorem boss_spawn_rule:
  "length (filter isBoss (entities (simulate rnd g))) =
     length (filter isBoss (entities g)) + (if bossTrigger g then 1 else 0) \<and>
   (length (filter isBoss (entities g)) \<le> 1 \<longrightarrow>
      length (filter isBoss (entities (tick rnd g))) \<le> 1)"
proof (intro conjI impI)
  show c: "length (filter isBoss (entities (simulate rnd g))) =
     length (filter isBoss (entities g)) + (if bossTrigger g then 1 else 0)"
    by (rule simulate_counts(1))
  assume le: "length (filter isBoss (entities g)) \<le> 1"
  have "length (filter isBoss (entities (simulate rnd g))) \<le> 1"
  proof (cases "bossTrigger g")
    case True
    then have "length (filter isBoss (entities g)) = 0" unfolding bossTrigger_isBoss by blast
    then show ?thesis using c True by simp
  next
    case False
    then show ?thesis using c le by simp
  qed
  moreover have "length (filter isBoss (entities (tick rnd g))) \<le>
      length (filter isBoss (entities (simulate rnd g)))"
    unfolding tick_def cleanup_def by (simp add: filter_filter_length del: filter_filter)
  ultimately show "length (filter isBoss (entities (tick rnd g))) \<le> 1" by linarith
qed

theorem boss_spawn_rule_witness:
  "bossTrigger (level800 0 1600 False (standingPlayer 100) []) \<and>
   length (filter isBoss (entities (level800 0 1600 False (standingPlayer 100) []))) \<le> 1 \<and>
   length (filter isBoss (entities (simulate rnd0 (level800 0 1600 False (standingPlayer 100) [])))) = 1 \<and>
   length (filter isBoss (entities (tick rnd0 (level800 0 1600 False (standingPlayer 100) [])))) \<le> 1"
  using boss_spawn_rule [of rnd0 "level800 0 1600 False (standingPlayer 100) []"]
  by (simp add: level800_def bossTrigger_def BOSS_SPAWN_SCORE_def)

text \<open>
  Claim C2 says that a run creates the boss exactly once and that no later tick creates a
  second one, in particular not after the first boss has been killed and purged while the
  score is above the threshold. The code breaks this: the test of line 279 reads the current
  flag, score and array only, and the kill of lines 463-468 clears the flag (line 466) and
  removes the boss while leaving the score above 1500. In \<open>bossFight\<close> (one boss, flag
  set, score 1600) the boss is killed on frame 3599, and the tick of frame 3600 creates a
  second boss with 150 hp and sets the flag again.
\<close>

theorem boss_respawns_after_kill:
  "length (filter isBoss (entities bossFight)) = 1 \<and> bossActive bossFight \<and>
   filter isBoss (entities (tick rnd0 bossFight)) = [] \<and>
   \<not> bossActive (tick rnd0 bossFight) \<and> score (tick rnd0 bossFight) > BOSS_SPAWN_SCORE \<and>
   map hp (filter isBoss (entities (tick rnd0 (tick rnd0 bossFight)))) = [150] \<and>
   bossActive (tick rnd0 (tick rnd0 bossFight))"
proof -
  have "length (filter isBoss (entities bossFight)) = 1 \<and> bossActive bossFight"
    by (simp add: scene_defs isBoss_def)
  then show ?thesis using boss_trace by (simp add: Let_def BOSS_SPAWN_SCORE_def)
qed

section \<open>Boss fight and ambient spawning (claim C6)\<close>

text \<open>
  The enemy and powerup checks of lines 283-284 on any state: in a tick that starts with the
  boss flag set, or in which \<open>bossTrigger\<close> holds, no ordinary enemy and no powerup is
  created; in any other tick one ordinary enemy is created if the new frame count is a
  multiple of 120 and one powerup if it is a multiple of 900 (counts before the purge).
\<close>

theorem spawn_gate:
  "length (filter isOrdinaryEnemy (entities (simulate rnd g))) =
     length (filter isOrdinaryEnemy (entities g)) +
     (if (frameCount g + 1) mod 120 = 0 \<and> \<not> (bossActive g \<or> bossTrigger g) then 1 else 0) \<and>
   length (filter isPowerup (entities (simulate rnd g))) =
     length (filter isPowerup (entities g)) +
     (if (frameCount g + 1) mod 900 = 0 \<and> \<not> (bossActive g \<or> bossTrigger g) then 1 else 0)"
  using simulate_counts(2) simulate_counts(3) by blast

theorem spawn_gate_witness:
  "\<not> bossActive (level800 3599 0 False (standingPlayer 100) []) \<and>
   \<not> bossTrigger (level800 3599 0 False (standingPlayer 100) []) \<and>
   length (filter isOrdinaryEnemy (entities (simulate rnd0 (level800 3599 0 False (standingPlayer 100) [])))) = 1 \<and>
   length (filter isPowerup (entities (simulate rnd0 (level800 3599 0 False (standingPlayer 100) [])))) = 1 \<and>
   bossActive (level800 3599 1600 True (standingPlayer 100) [woundedBoss]) \<and>
   length (filter isOrdinaryEnemy (entities (simulate rnd0 (level800 3599 1600 True (standingPlayer 100) [woundedBoss])))) = 0 \<and>
   length (filter isPowerup (entities (simulate rnd0 (level800 3599 1600 True (standingPlayer 100) [woundedBoss])))) = 0"
  using spawn_gate [of rnd0 "level800 3599 0 False (standingPlayer 100) []"]
        spawn_gate [of rnd0 "level800 3599 1600 True (standingPlayer 100) [woundedBoss]"]
  by (simp add: level800_def bossTrigger_def BOSS_SPAWN_SCORE_def woundedBoss_def
      isOrdinaryEnemy_def isPowerup_def)

text \<open>
  Claim C6 says that no ordinary enemy or powerup is spawned while the boss flag is set, and
  that spawning resumes on the next frame of the cadence once the boss kill has cleared the
  flag. The first half holds (\<open>spawn_gate\<close>). The second half is broken in
  \<open>bossFight\<close>: the kill on frame 3599 clears the flag (line 466), but on frame 3600, a
  multiple of 120 and of 900, the boss test of line 279 runs first, spawns a new boss and
  sets the flag again, so that the tick creates neither an ordinary enemy nor a powerup.
\<close>

theorem no_spawn_after_flag_cleared:
  "bossActive bossFight \<and> \<not> bossActive (tick rnd0 bossFight) \<and>
   frameCount (tick rnd0 (tick rnd0 bossFight)) = 3600 \<and>
   (3600::int) mod 120 = 0 \<and> (3600::int) mod 900 = 0 \<and>
   filter isOrdinaryEnemy (entities (tick rnd0 (tick rnd0 bossFight))) = [] \<and>
   filter isPowerup (entities (tick rnd0 (tick rnd0 bossFight))) = []"
proof -
  have "bossActive bossFight" by (simp add: scene_defs)
  then show ?thesis using boss_trace by (simp add: Let_def)
qed

section \<open>Hit points at the end of a tick (claim C4)\<close>

text \<open>
  Claim C4 says that no entity, the player included, ends a tick with hp at or below zero
  unless it is flagged for removal. For the player this fails: contact damage subtracts 10
  per overlapping enemy with no lower bound, a fall sets hp to 0, and nothing ever flags the
  player. In \<open>contactState\<close> the player has 10 hp and two runners walk into it; after the
  tick its hp is - 10 and it is not flagged.
\<close>

theorem player_hp_negative_unflagged:
  "hp (player contactState) = 10 \<and> hp (player (tick rnd0 contactState)) = - 10 \<and>
   \<not> markedForDeletion (player (tick rnd0 contactState))"
proof -
  have "hp (player contactState) = 10" by (simp add: scene_defs)
  then show ?thesis using contact_trace by (simp add: Let_def)
qed

text \<open>
  Claim C4 as amended. For the entities of the entity array: if every entity has positive hp
  or is flagged when a tick starts (as in the empty array of a new run), then every entity
  left in the array when the tick ends has positive hp and is not flagged. An enemy whose
  hp reaches zero is flagged by the same hit and removed by the purge of that tick. The
  player is not in the array and is not covered.
\<close>

theorem entities_alive_after_tick:
  assumes "\<forall>e\<in>set (entities g). 0 < hp e \<or> markedForDeletion e"
  shows "\<forall>e\<in>set (entities (tick rnd g)). 0 < hp e \<and> \<not> markedForDeletion e"
proof -
  have "sound (entities g)" using assms by (simp add: sound_def)
  then have "sound (entities (simulate rnd g))" by (rule sound_simulate)
  then show ?thesis unfolding tick_def cleanup_def sound_def by auto
qed

theorem entities_alive_after_tick_witness:
  "length (entities (tick rnd0 twoTargets)) = 4 \<and>
   0 < hp (entities (tick rnd0 twoTargets) ! 0) \<and>
   \<not> markedForDeletion (entities (tick rnd0 twoTargets) ! 0)"
proof -
  have h: "\<forall>e\<in>set (entities twoTargets). 0 < hp e \<or> markedForDeletion e"
    by (simp add: scene_defs)
  have "length (map hp (entities (tick rnd0 twoTargets))) = 4"
    using two_targets_trace by (simp add: Let_def)
  then have l: "length (entities (tick rnd0 twoTargets)) = 4" by simp
  then have "entities (tick rnd0 twoTargets) ! 0 \<in> set (entities (tick rnd0 twoTargets))"
    by simp
  then have "0 < hp (entities (tick rnd0 twoTargets) ! 0) \<and>
      \<not> markedForDeletion (entities (tick rnd0 twoTargets) ! 0)"
    using entities_alive_after_tick [OF h, of rnd0] by blast
  then show ?thesis using l by simp
qed

section \<open>Boss phases (claim C5)\<close>

text \<open>
  Claim C5. Let \<open>e\<close> be the entity at some index of the entity array when a tick starts and
  \<open>e'\<close> the entity at that index when the tick has run (before the purge, which removes
  entities but changes none). Then the boss phase never decreases; a live boss that starts
  the tick in phase 1 is in phase 2 after it exactly if its hp at the start of the tick (the
  hp the update loop reads, since hits are resolved after it) is strictly below half of its
  maxHp, whatever the frame counter, and otherwise stays in phase 1; and phase 2 is kept,
  whatever the hp.
\<close>

theorem boss_phase_monotone:
  assumes "i < length (entities g)"
  shows "(\<forall>ph. bossPhase (entities g ! i) = Some ph \<longrightarrow>
            (\<exists>ph'. bossPhase (entities (simulate rnd g) ! i) = Some ph' \<and> ph \<le> ph')) \<and>
         (type (entities g ! i) = Enemy \<and> subtype (entities g ! i) = Some Boss \<and>
          \<not> markedForDeletion (entities g ! i) \<and> bossPhase (entities g ! i) = Some 1 \<longrightarrow>
            (bossPhase (entities (simulate rnd g) ! i) = Some 2 \<longleftrightarrow>
               real_of_int (hp (entities g ! i)) < real_of_int (maxHp (entities g ! i)) / 2) \<and>
            (bossPhase (entities (simulate rnd g) ! i) = Some 1 \<longleftrightarrow>
               \<not> real_of_int (hp (entities g ! i)) < real_of_int (maxHp (entities g ! i)) / 2)) \<and>
         (bossPhase (entities g ! i) = Some 2 \<longrightarrow> bossPhase (entities (simulate rnd g) ! i) = Some 2)"
  unfolding simulate_bossPhase [OF assms] bossPhase_updateBoss
  by auto

theorem boss_phase_monotone_witness:
  "0 < length (entities (level800 0 1600 True (standingPlayer 100)
                          [woundedBoss\<lparr>bossPhase := Some 1, hp := 74\<rparr>])) \<and>
   bossPhase (entities (simulate rnd0 (level800 0 1600 True (standingPlayer 100)
                          [woundedBoss\<lparr>bossPhase := Some 1, hp := 74\<rparr>])) ! 0) = Some 2 \<and>
   bossPhase (entities (simulate rnd0 (level800 0 1600 True (standingPlayer 100)
                          [woundedBoss\<lparr>bossPhase := Some 1, hp := 75\<rparr>])) ! 0) = Some 1 \<and>
   bossPhase (entities (simulate rnd0 (level800 0 1600 True (standingPlayer 100)
                          [woundedBoss\<lparr>hp := 140\<rparr>])) ! 0) = Some 2"
  using boss_phase_monotone [of 0 "level800 0 1600 True (standingPlayer 100)
                          [woundedBoss\<lparr>bossPhase := Some 1, hp := 74\<rparr>]" rnd0]
        boss_phase_monotone [of 0 "level800 0 1600 True (standingPlayer 100)
                          [woundedBoss\<lparr>bossPhase := Some 1, hp := 75\<rparr>]" rnd0]
        boss_phase_monotone [of 0 "level800 0 1600 True (standingPlayer 100)
                          [woundedBoss\<lparr>hp := 140\<rparr>]" rnd0]
  by (simp add: level800_def woundedBoss_def)


section \<open>Landing (claim C8)\<close>

text \<open>
  Claim C8 says that an entity that meets the landing test in a tick ends that tick grounded,
  with vertical velocity 0 and its bottom edge on the platform top, also when knockback runs
  in the same tick. For the player this fails: the knockback of lines 485-486 runs after the
  platform loop and sets the vertical velocity to - 5 without clearing the grounded flag. In
  \<open>contactState\<close> the player meets the landing test against the floor, and after the tick
  it is grounded with vertical velocity - 5.
\<close>

theorem knockback_after_landing:
  "landing (boundsPlayer (canvas contactState)
              (integratePlayer (input contactState) (player contactState)))
     (platforms contactState ! 0) \<and>
   isGrounded (player (tick rnd0 contactState)) = Some True \<and>
   y (vel (player (tick rnd0 contactState))) = - 5 \<and>
   y (vel (player (tick rnd0 contactState))) \<noteq> 0"
  using contact_landing contact_trace by (simp add: Let_def)

text \<open>
  Claim C8 as amended. (1) If the player, after the movement and bounds steps of a tick, meets
  the landing test against some platform, then at the end of that tick its grounded flag is
  set and its bottom edge is on the top of a platform; its vertical velocity is 0 if its hp
  was not lowered by contact in that tick and - 5 (the knockback) if it was. (2) A live
  ground-bound enemy (neither boss nor drone) that meets the landing test after its movement
  leaves the callback of the update loop grounded, with vertical velocity 0 and its bottom
  edge on the top of a platform (\<open>landedOn\<close>). (3) The collision phase, which is all
  that a tick runs between the update loop and the purge, changes neither position nor
  velocity nor extent nor grounded flag of any entity of the array.
\<close>

theorem landing_invariant:
  "((\<exists>pl\<in>set (platforms g).
        landing (boundsPlayer (canvas g) (integratePlayer (input g) (player g))) pl) \<longrightarrow>
      isGrounded (player (tick rnd g)) = Some True \<and>
      (\<exists>pl\<in>set (platforms g).
          y (pos (player (tick rnd g))) + height (size_e (player (tick rnd g))) = y (pos pl)) \<and>
      (if hp (player (tick rnd g)) =
            hp (boundsPlayer (canvas g) (integratePlayer (input g) (player g)))
       then y (vel (player (tick rnd g))) = 0 else y (vel (player (tick rnd g))) = - 5)) \<and>
   (type e = Enemy \<and> subtype e \<noteq> Some Boss \<and> subtype e \<noteq> Some Drone \<and>
    \<not> markedForDeletion e \<and>
    (\<exists>pl\<in>set ps. landing (fst (moveEnemy rnd cv fc p (applyGravity e) rc)) pl) \<longrightarrow>
      landedOn ps (fst (updateEntity rnd cv fc ps p e rc))) \<and>
   (i < length (entities h) \<longrightarrow>
      pos (entities (collisions rnd h) ! i) = pos (entities h ! i) \<and>
      vel (entities (collisions rnd h) ! i) = vel (entities h ! i) \<and>
      size_e (entities (collisions rnd h) ! i) = size_e (entities h ! i) \<and>
      isGrounded (entities (collisions rnd h) ! i) = isGrounded (entities h ! i))"
proof (intro conjI impI)
  assume "\<exists>pl\<in>set (platforms g).
        landing (boundsPlayer (canvas g) (integratePlayer (input g) (player g))) pl"
  then have a: "isGrounded (player (tick rnd g)) = Some True \<and>
         (\<exists>pl\<in>set (platforms g).
             y (pos (player (tick rnd g))) + height (size_e (player (tick rnd g))) = y (pos pl)) \<and>
         (if hp (player (tick rnd g)) =
               hp (boundsPlayer (canvas g) (integratePlayer (input g) (player g)))
          then y (vel (player (tick rnd g))) = 0 else y (vel (player (tick rnd g))) = - 5)"
    by (rule player_landed_after_tick)
  show "isGrounded (player (tick rnd g)) = Some True" using a by blast
  show "\<exists>pl\<in>set (platforms g).
          y (pos (player (tick rnd g))) + height (size_e (player (tick rnd g))) = y (pos pl)"
    using a by blast
  show "if hp (player (tick rnd g)) =
            hp (boundsPlayer (canvas g) (integratePlayer (input g) (player g)))
       then y (vel (player (tick rnd g))) = 0 else y (vel (player (tick rnd g))) = - 5"
    using a by blast
next
  assume "type e = Enemy \<and> subtype e \<noteq> Some Boss \<and> subtype e \<noteq> Some Drone \<and>
    \<not> markedForDeletion e \<and>
    (\<exists>pl\<in>set ps. landing (fst (moveEnemy rnd cv fc p (applyGravity e) rc)) pl)"
  then show "landedOn ps (fst (updateEntity rnd cv fc ps p e rc))"
    using enemy_landed_after_callback by blast
next
  assume i: "i < length (entities h)"
  show "pos (entities (collisions rnd h) ! i) = pos (entities h ! i)"
    "vel (entities (collisions rnd h) ! i) = vel (entities h ! i)"
    "size_e (entities (collisions rnd h) ! i) = size_e (entities h ! i)"
    "isGrounded (entities (collisions rnd h) ! i) = isGrounded (entities h ! i)"
    using collisions_keep_body [OF i, of rnd] by simp_all
qed

theorem landing_invariant_witness:
  "isGrounded (player (tick rnd0 contactState)) = Some True \<and>
   y (vel (player (tick rnd0 contactState))) = - 5 \<and>
   isGrounded (player (tick rnd0 twoTargets)) = Some True \<and>
   y (vel (player (tick rnd0 twoTargets))) = 0 \<and>
   y (vel (fst (updateEntity rnd0 \<lparr>width = 800, height = 600\<rparr> 1
                  [mkPlatform ''floor'' 0 560 800 40 ''#334155''] (standingPlayer 10)
                  (runnerAt 110 528) 0))) = 0 \<and>
   isGrounded (entities (collisions rnd0 contactState) ! 0) = Some True"
proof -
  have pc: "platforms contactState ! 0 \<in> set (platforms contactState)"
    by (simp add: scene_defs)
  have lc: "\<exists>pl\<in>set (platforms contactState).
      landing (boundsPlayer (canvas contactState)
                 (integratePlayer (input contactState) (player contactState))) pl"
    using contact_landing pc by blast
  have hc: "hp (player (tick rnd0 contactState)) \<noteq>
      hp (boundsPlayer (canvas contactState)
            (integratePlayer (input contactState) (player contactState)))"
    using contact_trace
    by (simp add: Let_def scene_defs boundsPlayer_def integratePlayer_def GRAVITY_def FRICTION_def
        cong: let_weak_cong)
  have 1: "isGrounded (player (tick rnd0 contactState)) = Some True \<and>
      y (vel (player (tick rnd0 contactState))) = - 5"
    using landing_invariant [where g = contactState and rnd = rnd0] lc hc by simp
  have pt: "platforms twoTargets ! 0 \<in> set (platforms twoTargets)"
    by (simp add: scene_defs)
  have lt: "\<exists>pl\<in>set (platforms twoTargets).
      landing (boundsPlayer (canvas twoTargets)
                 (integratePlayer (input twoTargets) (player twoTargets))) pl"
    using two_targets_landing pt by blast
  have ht: "hp (player (tick rnd0 twoTargets)) =
      hp (boundsPlayer (canvas twoTargets) (integratePlayer (input twoTargets) (player twoTargets)))"
    by (simp add: model_defs scene_defs Let_def cong: let_weak_cong)
  have 2: "isGrounded (player (tick rnd0 twoTargets)) = Some True \<and>
      y (vel (player (tick rnd0 twoTargets))) = 0"
    using landing_invariant [where g = twoTargets and rnd = rnd0] lt ht by simp
  have "landedOn [mkPlatform ''floor'' 0 560 800 40 ''#334155'']
      (fst (updateEntity rnd0 \<lparr>width = 800, height = 600\<rparr> 1
                  [mkPlatform ''floor'' 0 560 800 40 ''#334155''] (standingPlayer 10)
                  (runnerAt 110 528) 0))"
    using landing_invariant [where e = "runnerAt 110 528"
        and ps = "[mkPlatform ''floor'' 0 560 800 40 ''#334155'']" and rnd = rnd0
        and cv = "\<lparr>width = 800, height = 600\<rparr>" and fc = 1 and p = "standingPlayer 10"
        and rc = 0] runner_landing
    by (simp add: runnerAt_def)
  then have 3: "y (vel (fst (updateEntity rnd0 \<lparr>width = 800, height = 600\<rparr> 1
                  [mkPlatform ''floor'' 0 560 800 40 ''#334155''] (standingPlayer 10)
                  (runnerAt 110 528) 0))) = 0"
    by (simp add: landedOn_def)
  have "isGrounded (entities (collisions rnd0 contactState) ! 0) = isGrounded (entities contactState ! 0)"
    using landing_invariant [where rnd = rnd0 and i = 0 and h = contactState]
    by (simp add: scene_defs)
  then have 4: "isGrounded (entities (collisions rnd0 contactState) ! 0) = Some True"
    by (simp add: scene_defs)
  show ?thesis using 1 2 3 4 by blast
qed

section \<open>Contact damage (claim C9)\<close>

text \<open>
  Claim C9. There is no invulnerability after a hit. The collision phase, which every tick
  runs, lowers the player's hp by exactly 10 for each entity of the array that is an enemy or
  an enemy projectile, overlaps the player and is not flagged when the loop reaches it
  (\<open>liveContact\<close>); nothing else is consulted. If there is at least one such entity
  the player leaves the phase with the knockback velocity. In particular an enemy that
  overlaps the player and is still unflagged after the phase has cost the player at least
  10 hp in this tick, and will again in every later tick in which it still overlaps.
\<close>

theorem contact_damage_every_tick:
  "player (tick rnd g0) =
     player (collisions rnd (entityUpdateLoop rnd (spawning rnd (shoot rnd
       (playerPhysics (g0\<lparr>frameCount := frameCount g0 + 1\<rparr>)))))) \<and>
   hp (player (collisions rnd g)) =
     hp (player g) - 10 * int (length (filter (liveContact rnd g) [0..<length (entities g)])) \<and>
   (filter (liveContact rnd g) [0..<length (entities g)] \<noteq> [] \<longrightarrow>
      y (vel (player (collisions rnd g))) = - 5 \<and>
      (x (vel (player (collisions rnd g))) = 10 \<or> x (vel (player (collisions rnd g))) = - 10)) \<and>
   (i < length (entities g) \<and> type (entities g ! i) = Enemy \<and>
    isColliding (player g) (entities g ! i) \<and>
    \<not> markedForDeletion (entities (collisions rnd g) ! i) \<longrightarrow>
      liveContact rnd g i \<and> hp (player (collisions rnd g)) \<le> hp (player g) - 10)"
proof (intro conjI impI)
  show "player (tick rnd g0) =
     player (collisions rnd (entityUpdateLoop rnd (spawning rnd (shoot rnd
       (playerPhysics (g0\<lparr>frameCount := frameCount g0 + 1\<rparr>))))))"
    by (simp add: tick_def simulate_def cleanup_fields)
  show f: "hp (player (collisions rnd g)) =
     hp (player g) - 10 * int (length (filter (liveContact rnd g) [0..<length (entities g)]))"
    unfolding collisions_def by (rule hp_prefix) simp
  have ps: "playerStep (player g) (player (collisions rnd g))"
    using collStep_collisions [of g rnd] by (simp add: collStep_def)
  {
    assume "filter (liveContact rnd g) [0..<length (entities g)] \<noteq> []"
    then have "0 < length (filter (liveContact rnd g) [0..<length (entities g)])" by simp
    then have "hp (player (collisions rnd g)) < hp (player g)" using f by simp
    then have k: "y (vel (player (collisions rnd g))) = - 5 \<and>
      (x (vel (player (collisions rnd g))) = 10 \<or> x (vel (player (collisions rnd g))) = - 10)"
      using ps unfolding playerStep_def by auto
    show "y (vel (player (collisions rnd g))) = - 5" using k by blast
    show "x (vel (player (collisions rnd g))) = 10 \<or> x (vel (player (collisions rnd g))) = - 10"
      using k by blast
  }
  {
    assume a: "i < length (entities g) \<and> type (entities g ! i) = Enemy \<and>
      isColliding (player g) (entities g ! i) \<and>
      \<not> markedForDeletion (entities (collisions rnd g) ! i)"
    then have "\<not> markedForDeletion (entities (fold (collideEntity rnd) [0..<i] g) ! i)"
      using survivor_was_live by blast
    then show l: "liveContact rnd g i" using a by (simp add: liveContact_def)
    have "i \<in> set (filter (liveContact rnd g) [0..<length (entities g)])" using a l by simp
    then have "0 < length (filter (liveContact rnd g) [0..<length (entities g)])"
      by (rule length_pos_if_in_set)
    then have "1 \<le> length (filter (liveContact rnd g) [0..<length (entities g)])"
      by linarith
    then show "hp (player (collisions rnd g)) \<le> hp (player g) - 10" using f by simp
  }
qed

theorem contact_damage_every_tick_witness:
  "filter (liveContact rnd0 contactState) [0..<length (entities contactState)] = [0, 1] \<and>
   hp (player contactState) = 10 \<and>
   hp (player (collisions rnd0 contactState)) = - 10 \<and>
   y (vel (player (collisions rnd0 contactState))) = - 5 \<and>
   hp (player (tick rnd0 contactState)) = - 10 \<and>
   hp (player (tick rnd0 (tick rnd0 contactState))) = - 30"
proof -
  have h: "hp (player contactState) = 10" by (simp add: scene_defs)
  have "hp (player (collisions rnd0 contactState)) = - 10 \<and>
      y (vel (player (collisions rnd0 contactState))) = - 5"
    using contact_damage_every_tick [where rnd = rnd0 and g = contactState] contact_live h by simp
  then show ?thesis using contact_live h contact_two_ticks by (simp add: Let_def)
qed

end
